theory Spec2Isabelle
  imports Main "HOL-Library.List_Lexorder"
begin

section \<open>Text primitives of the Python runtime\<close>

text \<open>
  A Python \<open>str\<close> is a sequence of Unicode code points; \<open>len\<close> counts code points.
  A code point is a natural number and a string a list of them.
\<close>

type_synonym cp = nat
type_synonym ustr = "cp list"

text \<open>ASCII literals: \<open>ustr ''abc''\<close> is the Python string \<open>"abc"\<close>.\<close>

definition ustr :: "string \<Rightarrow> ustr" where
  "ustr s = map of_char s"

text \<open>
  The repository calls into the Unicode character database of the interpreter
  (\<open>str.lower\<close>, \<open>unicodedata.normalize("NFKD", _)\<close>, \<open>unicodedata.combining\<close>,
  \<open>str.isalnum\<close>, \<open>str.isspace\<close>) and into the \<open>unidecode\<close> package. None of these
  tables is part of the repository, so every function below takes them as a parameter.
\<close>

record unicode_tables =
  str_lower :: "ustr \<Rightarrow> ustr"
  nfkd :: "ustr \<Rightarrow> ustr"
  combining :: "cp \<Rightarrow> nat"
  isalnum :: "cp \<Rightarrow> bool"
  isspace :: "cp \<Rightarrow> bool"
  unidecode :: "ustr \<Rightarrow> ustr"

datatype py_error = IndexError | KeyError | RequestException

text \<open>\<open>s.strip()\<close>: leading and trailing whitespace removed.\<close>

definition strip :: "unicode_tables \<Rightarrow> ustr \<Rightarrow> ustr" where
  "strip T s = rev (dropWhile (isspace T) (rev (dropWhile (isspace T) s)))"

text \<open>
  \<open>s.split()\<close>: the maximal runs of non-whitespace characters, in order. \<open>cur\<close> is the
  run read so far.
\<close>

fun split_from :: "unicode_tables \<Rightarrow> ustr \<Rightarrow> ustr \<Rightarrow> ustr list" where
  "split_from T cur [] = (if cur = [] then [] else [cur])"
| "split_from T cur (c # cs) =
     (if isspace T c
      then (if cur = [] then split_from T [] cs else cur # split_from T [] cs)
      else split_from T (cur @ [c]) cs)"

definition split :: "unicode_tables \<Rightarrow> ustr \<Rightarrow> ustr list" where
  "split T s = split_from T [] s"

text \<open>\<open>sep.join(parts)\<close>.\<close>

fun join :: "ustr \<Rightarrow> ustr list \<Rightarrow> ustr" where
  "join sep [] = []"
| "join sep [p] = p"
| "join sep (p # q # ps) = p @ sep @ join sep (q # ps)"

text \<open>\<open>re.sub(r"\<bsol>s+", " ", s)\<close>: every maximal run of whitespace becomes one space.\<close>

function collapse_ws :: "unicode_tables \<Rightarrow> ustr \<Rightarrow> ustr" where
  "collapse_ws T [] = []"
| "collapse_ws T (c # cs) =
     (if isspace T c then 32 # collapse_ws T (dropWhile (isspace T) cs)
      else c # collapse_ws T cs)"
  by pat_completeness auto
termination
  by (relation "measure (\<lambda>(T, s). length s)") (auto simp: length_dropWhile_le less_Suc_eq_le)

text \<open>
  The character class \<open>\<bsol>w\<close> of \<open>re\<close> on \<open>str\<close> patterns: alphanumeric or underscore.
  \<open>re.sub(r"[^\<bsol>w\<bsol>s]", "", s)\<close> keeps the word and whitespace characters.
\<close>

definition is_word :: "unicode_tables \<Rightarrow> cp \<Rightarrow> bool" where
  "is_word T c \<longleftrightarrow> isalnum T c \<or> c = 95"

definition drop_punct :: "unicode_tables \<Rightarrow> ustr \<Rightarrow> ustr" where
  "drop_punct T s = filter (\<lambda>c. is_word T c \<or> isspace T c) s"

section \<open>Name matching (\<open>src/common/name_matching.py\<close>)\<close>

definition COMMON_INSTITUTION_WORDS :: "ustr list" where
  "COMMON_INSTITUTION_WORDS = map ustr
     [''universidad'', ''university'', ''college'', ''institute'', ''instituto'',
      ''institut'', ''facultad'', ''escuela'', ''politecnica'', ''autonoma'', ''superior'',
      ''council'']"

text \<open>
  \<open>normalize_name\<close>. The parameter is a \<open>str\<close>; the guard \<open>not name\<close> is the empty
  string. U+002D and U+2010 are the two hyphens of the character class.
\<close>

definition normalize_name :: "unicode_tables \<Rightarrow> ustr \<Rightarrow> ustr" where
  "normalize_name T name =
     (if name = [] then []
      else
        let norm = str_lower T (strip T name);
            norm = nfkd T norm;
            norm = filter (\<lambda>ch. combining T ch = 0) norm;
            norm = map (\<lambda>ch. if ch = 45 \<or> ch = 8208 then 32 else ch) norm;
            norm = filter (\<lambda>ch. isalnum T ch \<or> isspace T ch) norm;
            norm = collapse_ws T norm
        in strip T norm)"

text \<open>
  \<open>parse_spanish_name\<close>: \<open>tokens[-2]\<close> and \<open>tokens[-1]\<close> are read only when there are at
  least three tokens, so the negative indices are in range.
\<close>

definition parse_spanish_name ::
  "unicode_tables \<Rightarrow> ustr \<Rightarrow> ustr list \<times> ustr option \<times> ustr option" where
  "parse_spanish_name T full_name =
     (let tokens = split T (str_lower T full_name) in
      if length tokens < 2 then (tokens, None, None)
      else
        let first_names = [tokens ! 0] in
        if length tokens = 2 then (first_names, Some (tokens ! 1), None)
        else (first_names, Some (tokens ! (length tokens - 2)),
              Some (tokens ! (length tokens - 1))))"

text \<open>\<open>tokenize_name_fields(*fields)\<close>.\<close>

definition tokenize_name_fields :: "unicode_tables \<Rightarrow> ustr list \<Rightarrow> ustr list" where
  "tokenize_name_fields T name_fields =
     (let combined = str_lower T (join [32] name_fields);
          combined = unidecode T combined;
          combined = map (\<lambda>ch. if ch = 45 then 32 else ch) combined;
          combined = drop_punct T combined
      in split T combined)"

definition normalize_institution_name :: "unicode_tables \<Rightarrow> ustr \<Rightarrow> ustr list" where
  "normalize_institution_name T name =
     (let name = str_lower T name;
          name = map (\<lambda>ch. if ch = 45 then 32 else ch) name;
          name = drop_punct T name;
          name = unidecode T name;
          tokens = split T name
      in filter (\<lambda>t. t \<notin> set COMMON_INSTITUTION_WORDS) tokens)"

definition institution_match :: "unicode_tables \<Rightarrow> ustr \<Rightarrow> ustr \<Rightarrow> bool" where
  "institution_match T institution affiliation =
     (let inst_tokens = normalize_institution_name T institution;
          aff_tokens = normalize_institution_name T affiliation
      in if inst_tokens = [] then False
         else list_ex (\<lambda>t. t \<in> set aff_tokens) inst_tokens)"

section \<open>The bag-of-words gate (\<open>src/openalex/query.py\<close>)\<close>

text \<open>
  The loop of \<open>bag_of_words_reject\<close> over \<open>enumerate(candidate_tokens)\<close>, from index
  \<open>i\<close>. \<open>full_name_tokens[i][0]\<close> raises IndexError on an empty target token.
\<close>

fun token_checks :: "nat \<Rightarrow> ustr list \<Rightarrow> ustr list \<Rightarrow> py_error + bool" where
  "token_checks i [] full_name_tokens = Inr False"
| "token_checks i (token # rest) full_name_tokens =
     (if i \<ge> length full_name_tokens then Inr True
      else if length token < 2 then
        (case full_name_tokens ! i of
           [] \<Rightarrow> Inl IndexError
         | c # _ \<Rightarrow> if token \<noteq> [c] then Inr True
                    else token_checks (Suc i) rest full_name_tokens)
      else if token \<notin> set full_name_tokens then Inr True
      else token_checks (Suc i) rest full_name_tokens)"

text \<open>
  \<open>candidate_name\<close> and \<open>full_name\<close> are only written to the debug log. The memo
  \<open>reject_dict\<close> is consulted before any token is looked at.
\<close>

definition bag_of_words_reject ::
  "ustr list \<Rightarrow> ustr list \<Rightarrow> ustr \<Rightarrow> ustr \<Rightarrow> (ustr \<rightharpoonup> bool) \<Rightarrow> ustr \<Rightarrow> py_error + bool" where
  "bag_of_words_reject candidate_tokens full_name_tokens candidate_name full_name
       reject_dict candidate_alex_id =
     (if candidate_alex_id \<in> dom reject_dict then Inr True
      else token_checks 0 candidate_tokens full_name_tokens)"

text \<open>The check one candidate token has to pass at position \<open>i\<close>, as a predicate.\<close>

definition token_fails :: "ustr list \<Rightarrow> nat \<Rightarrow> ustr \<Rightarrow> bool" where
  "token_fails full_name_tokens i token \<longleftrightarrow>
     i \<ge> length full_name_tokens
     \<or> (length token < 2 \<and> token \<noteq> take 1 (full_name_tokens ! i))
     \<or> (length token \<ge> 2 \<and> token \<notin> set full_name_tokens)"

section \<open>The institution resolver (\<open>src/openalex/query.py\<close>)\<close>

text \<open>
  \<open>re.sub(r"\<bsol>s*(\<bsol>(.*?\<bsol>)|,.*|/.*|-.*)", "", s)\<close>. The matchers return the text that
  follows the match. \<open>.\<close> matches every character but the newline (10).
  \<open>paren_close\<close> is the lazy \<open>.*?\<bsol>)\<close> after an opening parenthesis.
\<close>

fun paren_close :: "ustr \<Rightarrow> ustr option" where
  "paren_close [] = None"
| "paren_close (c # cs) =
     (if c = 41 then Some cs else if c = 10 then None else paren_close cs)"

fun alt_match :: "ustr \<Rightarrow> ustr option" where
  "alt_match [] = None"
| "alt_match (c # cs) =
     (if c = 40 then paren_close cs
      else if c = 44 \<or> c = 47 \<or> c = 45 then Some (dropWhile (\<lambda>d. d \<noteq> 10) cs)
      else None)"

text \<open>The greedy \<open>\<bsol>s*\<close> gives a whitespace character back when the rest fails.\<close>

fun qualifier_match :: "unicode_tables \<Rightarrow> ustr \<Rightarrow> ustr option" where
  "qualifier_match T [] = None"
| "qualifier_match T (c # cs) =
     (if isspace T c
      then (case qualifier_match T cs of
              Some r \<Rightarrow> Some r
            | None \<Rightarrow> alt_match (c # cs))
      else alt_match (c # cs))"

text \<open>
  The substitution scans from the left; \<open>skip\<close> counts the characters of the current
  match that are still to be dropped. A match is never empty.
\<close>

fun sub_from :: "unicode_tables \<Rightarrow> nat \<Rightarrow> ustr \<Rightarrow> ustr" where
  "sub_from T skip [] = []"
| "sub_from T skip (c # cs) =
     (if skip > 0 then sub_from T (skip - 1) cs
      else (case qualifier_match T (c # cs) of
              Some r \<Rightarrow> sub_from T (length cs - length r) cs
            | None \<Rightarrow> c # sub_from T 0 cs))"

definition strip_qualifiers :: "unicode_tables \<Rightarrow> ustr \<Rightarrow> ustr" where
  "strip_qualifiers T s = sub_from T 0 s"

definition MANUAL_REQUIRED :: ustr where
  "MANUAL_REQUIRED = ustr ''MANUAL_REQUIRED''"

text \<open>
  An HTTP exchange: \<open>Raises\<close> when \<open>requests.get\<close> or \<open>response.json()\<close> raises, else
  the status code and the decoded body.
\<close>

datatype 'a response = Raises | Status int 'a

text \<open>The \<open>id\<close> fields of \<open>data["results"]\<close> of an institution search, in order.\<close>

record institutions_page =
  inst_results :: "ustr list"

definition ins_clean :: "unicode_tables \<Rightarrow> ustr option \<Rightarrow> ustr" where
  "ins_clean T ins_name =
     strip T (strip_qualifiers T (case ins_name of None \<Rightarrow> [] | Some s \<Rightarrow> s))"

text \<open>
  \<open>resolve_institution_id\<close>. \<open>inst_net\<close> answers the institution search for a cleaned
  name. The result is the returned id, the cache after the call, and the searches
  that were sent over the network during the call.
\<close>

definition resolve_institution_id ::
  "unicode_tables \<Rightarrow> (ustr \<Rightarrow> institutions_page response) \<Rightarrow> ustr option \<Rightarrow> (ustr \<rightharpoonup> ustr)
     \<Rightarrow> ustr option \<times> (ustr \<rightharpoonup> ustr) \<times> ustr list" where
  "resolve_institution_id T inst_net ins_name cache =
     (let key = ins_clean T ins_name in
      case cache key of
        Some cached \<Rightarrow> (if cached = MANUAL_REQUIRED then None else Some cached, cache, [])
      | None \<Rightarrow>
          (case inst_net key of
             Raises \<Rightarrow> (None, cache(key \<mapsto> MANUAL_REQUIRED), [key])
           | Status code data \<Rightarrow>
               if code \<noteq> 200 then (None, cache(key \<mapsto> MANUAL_REQUIRED), [key])
               else (case inst_results data of
                       [] \<Rightarrow> (None, cache(key \<mapsto> MANUAL_REQUIRED), [key])
                     | ins_id # _ \<Rightarrow> (Some ins_id, cache(key \<mapsto> ins_id), [key]))))"

section \<open>The position-anchored cross-linker (\<open>src/scopus/id_match.py\<close>)\<close>

record authorship =
  author_id :: "ustr option"

record work =
  work_id :: "ustr option"
  authorships :: "authorship list"

text \<open>
  \<open>openalex_for_doi_by_index\<close>. \<open>work_net\<close> answers the lookup of a stripped DOI; an
  exception of \<open>requests.get\<close> is not caught. \<open>seq\<close> is a Python integer. The pause
  before returning has no effect on the result.
\<close>

definition openalex_for_doi_by_index ::
  "unicode_tables \<Rightarrow> (ustr \<Rightarrow> work response) \<Rightarrow> ustr \<Rightarrow> int
     \<Rightarrow> py_error + (ustr option \<times> ustr option)" where
  "openalex_for_doi_by_index T work_net doi seq =
     (case work_net (strip T doi) of
        Raises \<Rightarrow> Inl RequestException
      | Status code data \<Rightarrow>
          if code \<noteq> 200 then Inr (None, None)
          else
            let idx = seq - 1;
                found = (if 0 \<le> idx \<and> idx < int (length (authorships data))
                         then author_id (authorships data ! nat idx) else None)
            in Inr (work_id data, found))"

section \<open>The composite scorer (\<open>src/google_scholar/search.py\<close>)\<close>

record crossref_author =
  given :: ustr
  family :: ustr
  affiliation :: "ustr list"

text \<open>
  A CrossRef item: \<open>created\<close> is \<open>item["created"]["date-parts"]\<close>, \<open>DOI\<close> is
  \<open>item.get("DOI")\<close>.
\<close>

record crossref_item =
  author :: "crossref_author list"
  publisher :: ustr
  created :: "int list list"
  DOI :: "ustr option"

definition check_affiliation_or_publisher :: "unicode_tables \<Rightarrow> crossref_item \<Rightarrow> ustr \<Rightarrow> bool" where
  "check_affiliation_or_publisher T item institution_name =
     (if list_ex (\<lambda>au. list_ex (\<lambda>aff. institution_match T institution_name aff) (affiliation au))
           (author item) then True
      else if institution_match T institution_name (publisher item) then True
      else False)"

definition get_created_year :: "crossref_item \<Rightarrow> int option" where
  "get_created_year item =
     (case created item of
        [] \<Rightarrow> None
      | part # _ \<Rightarrow> (case part of [] \<Rightarrow> None | year # _ \<Rightarrow> Some year))"

definition check_created_year_in_range :: "crossref_item \<Rightarrow> int \<Rightarrow> int \<Rightarrow> bool" where
  "check_created_year_in_range item scholarship_year delta =
     (case get_created_year item of
        None \<Rightarrow> False
      | Some year \<Rightarrow> scholarship_year - delta \<le> year \<and> year \<le> scholarship_year + delta)"

definition perfect_match :: "unicode_tables \<Rightarrow> crossref_item \<Rightarrow> ustr \<Rightarrow> bool" where
  "perfect_match T item full_name =
     list_ex (\<lambda>au. set (tokenize_name_fields T [full_name])
                     \<subseteq> set (tokenize_name_fields T [given au, family au])) (author item)"

definition compute_similarity_score ::
  "unicode_tables \<Rightarrow> crossref_item \<Rightarrow> ustr \<Rightarrow> ustr \<Rightarrow> int \<Rightarrow> int" where
  "compute_similarity_score T item full_name institution_name scholarship_year =
     (if \<not> perfect_match T item full_name then - 999
      else
        let score = 1;
            score = (if check_affiliation_or_publisher T item institution_name
                     then score + 1 else score);
            score = (if check_created_year_in_range item scholarship_year 5
                     then score + 1 else score)
        in score)"

definition exact_token_match :: "unicode_tables \<Rightarrow> crossref_item \<Rightarrow> ustr \<Rightarrow> bool" where
  "exact_token_match T item full_name =
     list_ex (\<lambda>au. set (tokenize_name_fields T [given au, family au])
                     = set (tokenize_name_fields T [full_name])) (author item)"

definition doi_url :: "ustr \<Rightarrow> ustr" where
  "doi_url doi = ustr ''https://doi.org/'' @ doi"

text \<open>The surname query and the full search name built at the start of \<open>search_doi\<close>.\<close>

definition last_name_query :: "unicode_tables \<Rightarrow> ustr \<Rightarrow> ustr" where
  "last_name_query T name_query =
     (case parse_spanish_name T name_query of
        (_, apellido1, apellido2) \<Rightarrow>
          let q = (case apellido1 of None \<Rightarrow> [] | Some a \<Rightarrow> a)
          in (case apellido2 of
                None \<Rightarrow> q
              | Some b \<Rightarrow> if b = [] then q else q @ [32] @ b))"

definition search_full_name :: "unicode_tables \<Rightarrow> ustr \<Rightarrow> ustr \<Rightarrow> ustr" where
  "search_full_name T name_query given_name =
     strip T (given_name @ [32] @ last_name_query T name_query)"

text \<open>The exact-match fallback at the end of \<open>search_doi\<close>.\<close>

definition exact_fallback :: "crossref_item list \<Rightarrow> (ustr \<times> int) option" where
  "exact_fallback exact_match_items =
     (case exact_match_items of
        [] \<Rightarrow> None
      | item # _ \<Rightarrow>
          (case DOI item of
             None \<Rightarrow> None
           | Some doi \<Rightarrow> if doi \<noteq> [] then Some (doi_url doi, 1) else None))"

text \<open>
  \<open>search_doi\<close>. \<open>works_query\<close> answers the CrossRef author query with the sampled
  result set. \<open>list.sort(key, reverse=True)\<close> is stable, as is \<open>sort_key\<close> on the
  negated score. The result is the single returned entry (DOI link, score), or None.
\<close>

definition search_doi ::
  "unicode_tables \<Rightarrow> (ustr \<Rightarrow> crossref_item list) \<Rightarrow> ustr \<Rightarrow> ustr \<Rightarrow> int \<Rightarrow> ustr
     \<Rightarrow> (ustr \<times> int) option" where
  "search_doi T works_query name_query given_name scholarship_year institution_name =
     (let full_name = search_full_name T name_query given_name;
          results = works_query (last_name_query T name_query);
          scored_items =
            concat (map (\<lambda>item.
               let sc = compute_similarity_score T item full_name institution_name
                          scholarship_year
               in if sc > 0 then [(sc, item)] else []) results);
          exact_match_items = filter (\<lambda>item. exact_token_match T item full_name) results;
          scored_items = sort_key (\<lambda>x. - fst x) scored_items;
          best_scored = filter (\<lambda>x. fst x \<ge> 2) scored_items
      in case best_scored of
           [] \<Rightarrow> exact_fallback exact_match_items
         | (best_score, best_item) # _ \<Rightarrow>
             (case DOI best_item of
                None \<Rightarrow> exact_fallback exact_match_items
              | Some doi \<Rightarrow>
                  if doi \<noteq> [] then Some (doi_url doi, best_score)
                  else exact_fallback exact_match_items))"

section \<open>The tiered matcher (\<open>src/openalex/query.py\<close>)\<close>

record topic =
  field_display_name :: ustr

text \<open>
  An author record of the source, with the defaults of the \<open>get\<close> calls applied:
  \<open>cand_id\<close> is \<open>candidate.get("id", "")\<close>, \<open>affiliation_ids\<close> holds
  \<open>aff.get("institution", {}).get("id")\<close> of every affiliation, \<open>ids\<close> and
  \<open>summary_stats\<close> are the items of the two dictionaries with rendered values.
\<close>

record candidate =
  cand_id :: ustr
  display_name :: ustr
  display_name_alternatives :: "ustr list"
  affiliation_ids :: "ustr option list"
  topics :: "topic list"
  ids :: "(ustr \<times> ustr) list"
  works_count :: "int option"
  cited_by_count :: "int option"
  summary_stats :: "(ustr \<times> ustr) list"

text \<open>The twelve positions of a stored candidate tuple; position 4 is the source id.\<close>

record candidate_tuple =
  ct_fs_id :: ustr
  ct_name :: ustr
  ct_alternatives :: "ustr list"
  ct_field :: ustr
  ct_alex_id :: ustr
  ct_orcid :: ustr
  ct_scopus :: ustr
  ct_works_count :: "int option"
  ct_cited_by_count :: "int option"
  ct_summary_stats :: ustr
  ct_relevance_score :: "int option"
  ct_topics :: "topic list"

record run_state =
  candidate_dict :: "ustr \<rightharpoonup> candidate_tuple list"
  reject_dict :: "ustr \<rightharpoonup> bool"
  ins_cache :: "ustr \<rightharpoonup> ustr"

record authors_page =
  meta_count :: int
  results :: "candidate list"

record row =
  ID :: ustr
  Nombre :: ustr
  Apellido_1 :: ustr
  Nombre_apellidos :: ustr
  Pais :: ustr
  Trabajo_institucion :: "ustr option"

text \<open>\<open>candidate_dict.get(fs_id, [])\<close>.\<close>

definition accepted :: "(ustr \<rightharpoonup> candidate_tuple list) \<Rightarrow> ustr \<Rightarrow> candidate_tuple list" where
  "accepted cd fs_id = (case cd fs_id of None \<Rightarrow> [] | Some l \<Rightarrow> l)"

text \<open>\<open>any(candidate_alex_id == ct[4] for ct in candidate_dict.get(fs_id, []))\<close>.\<close>

definition already_accepted :: "(ustr \<rightharpoonup> candidate_tuple list) \<Rightarrow> ustr \<Rightarrow> ustr \<Rightarrow> bool" where
  "already_accepted cd fs_id candidate_alex_id =
     list_ex (\<lambda>ct. candidate_alex_id = ct_alex_id ct) (accepted cd fs_id)"

definition make_tuple :: "ustr \<Rightarrow> candidate \<Rightarrow> ustr \<Rightarrow> ustr list \<Rightarrow> candidate_tuple" where
  "make_tuple fs_id c candidate_name alternatives =
     \<lparr> ct_fs_id = fs_id,
       ct_name = candidate_name,
       ct_alternatives = alternatives,
       ct_field = (case topics c of [] \<Rightarrow> [] | t # _ \<Rightarrow> field_display_name t),
       ct_alex_id = cand_id c,
       ct_orcid = join (ustr '', '') (map snd (filter (\<lambda>kv. fst kv = ustr ''orcid'') (ids c))),
       ct_scopus = join (ustr '', '') (map snd (filter (\<lambda>kv. fst kv = ustr ''scopus'') (ids c))),
       ct_works_count = works_count c,
       ct_cited_by_count = cited_by_count c,
       ct_summary_stats =
         join (ustr '', '') (map (\<lambda>kv. fst kv @ ustr '': '' @ snd kv) (summary_stats c)),
       ct_relevance_score = None,
       ct_topics = topics c \<rparr>"

text \<open>
  \<open>gather_candidate_data\<close>: \<open>candidate_dict[fs_id].append(...)\<close> raises KeyError when the
  researcher has no list yet.
\<close>

definition gather_candidate_data ::
  "ustr \<Rightarrow> candidate \<Rightarrow> ustr \<Rightarrow> ustr list \<Rightarrow> (ustr \<rightharpoonup> candidate_tuple list)
     \<Rightarrow> py_error + (ustr \<rightharpoonup> candidate_tuple list)" where
  "gather_candidate_data fs_id c candidate_name alternatives cd =
     (case cd fs_id of
        None \<Rightarrow> Inl KeyError
      | Some l \<Rightarrow> Inr (cd(fs_id \<mapsto> l @ [make_tuple fs_id c candidate_name alternatives])))"

definition gather :: "ustr \<Rightarrow> candidate \<Rightarrow> run_state \<Rightarrow> py_error + run_state" where
  "gather fs_id c st =
     (case gather_candidate_data fs_id c (display_name c) (display_name_alternatives c)
             (candidate_dict st) of
        Inl e \<Rightarrow> Inl e
      | Inr cd \<Rightarrow> Inr (st\<lparr>candidate_dict := cd\<rparr>))"

text \<open>A \<open>for\<close> loop whose body may raise: the first exception ends the loop.\<close>

fun for_each :: "('a \<Rightarrow> 's \<Rightarrow> py_error + 's) \<Rightarrow> 'a list \<Rightarrow> 's \<Rightarrow> py_error + 's" where
  "for_each body [] st = Inr st"
| "for_each body (x # xs) st =
     (case body x st of Inl e \<Rightarrow> Inl e | Inr st' \<Rightarrow> for_each body xs st')"

text \<open>Case 1: exact name or alternative match.\<close>

definition tier1_body :: "unicode_tables \<Rightarrow> ustr \<Rightarrow> ustr \<Rightarrow> candidate \<Rightarrow> run_state
     \<Rightarrow> py_error + run_state" where
  "tier1_body T fs_id full_name c st =
     (let full_name_norm = normalize_name T full_name;
          candidate_name_norm = normalize_name T (display_name c);
          alternatives_norm = map (normalize_name T) (display_name_alternatives c)
      in if candidate_name_norm = full_name_norm
            \<or> list_ex (\<lambda>alt. full_name_norm = alt) alternatives_norm
         then (if \<not> already_accepted (candidate_dict st) fs_id (cand_id c)
               then gather fs_id c st else Inr st)
         else Inr st)"

text \<open>
  The gate as the two later tiers call it: a rejected candidate is written to the
  memo and the loop continues with the next candidate.
\<close>

definition gate :: "ustr list \<Rightarrow> ustr list \<Rightarrow> ustr \<Rightarrow> candidate \<Rightarrow> run_state
     \<Rightarrow> py_error + (bool \<times> run_state)" where
  "gate candidate_tokens full_name_tokens full_name c st =
     (case bag_of_words_reject candidate_tokens full_name_tokens (display_name c) full_name
             (reject_dict st) (cand_id c) of
        Inl e \<Rightarrow> Inl e
      | Inr rejected \<Rightarrow>
          if rejected
          then Inr (True, st\<lparr>reject_dict := (reject_dict st)(cand_id c \<mapsto> True)\<rparr>)
          else Inr (False, st))"

text \<open>Case 2: institution match with the bag-of-words check.\<close>

definition tier2_body :: "unicode_tables \<Rightarrow> ustr option \<Rightarrow> ustr \<Rightarrow> ustr \<Rightarrow> candidate
     \<Rightarrow> run_state \<Rightarrow> py_error + run_state" where
  "tier2_body T ins_id fs_id full_name c st =
     (let full_name_tokens = split T (normalize_name T full_name);
          candidate_tokens = split T (normalize_name T (display_name c))
      in if already_accepted (candidate_dict st) fs_id (cand_id c) then Inr st
         else (case gate candidate_tokens full_name_tokens full_name c st of
                 Inl e \<Rightarrow> Inl e
               | Inr (rejected, st') \<Rightarrow>
                   if rejected then Inr st'
                   else
                     let candidate_institutions =
                           concat (map (\<lambda>i. case i of None \<Rightarrow> []
                                              | Some x \<Rightarrow> if x \<noteq> [] then [x] else [])
                                    (affiliation_ids c))
                     in (case ins_id of
                           None \<Rightarrow> Inr st'
                         | Some i \<Rightarrow>
                             if i \<noteq> [] \<and> i \<in> set candidate_institutions
                             then gather fs_id c st' else Inr st')))"

text \<open>
  \<open>max(iterable, key=..., default=None)\<close>: the first element whose key is maximal.
\<close>

fun max_by :: "('a \<Rightarrow> int) \<Rightarrow> 'a list \<Rightarrow> 'a option" where
  "max_by key [] = None"
| "max_by key (x # xs) =
     Some (foldl (\<lambda>best y. if key y > key best then y else best) x xs)"

text \<open>
  The two nested loops of case 3 over the first two topics of each side. The inner
  loop returns the state and the flag \<open>matched\<close>.
\<close>

fun topic_inner :: "ustr \<Rightarrow> candidate \<Rightarrow> topic \<Rightarrow> topic list \<Rightarrow> run_state
     \<Rightarrow> py_error + (run_state \<times> bool)" where
  "topic_inner fs_id c t [] st = Inr (st, False)"
| "topic_inner fs_id c t (topic_cmp # rest) st =
     (if field_display_name t = field_display_name topic_cmp
      then (case gather fs_id c st of Inl e \<Rightarrow> Inl e | Inr st' \<Rightarrow> Inr (st', True))
      else topic_inner fs_id c t rest st)"

fun topic_outer :: "ustr \<Rightarrow> candidate \<Rightarrow> topic list \<Rightarrow> run_state
     \<Rightarrow> py_error + run_state" where
  "topic_outer fs_id c [] st = Inr st"
| "topic_outer fs_id c (t # rest) st =
     (case topic_inner fs_id c t (take 2 (topics c)) st of
        Inl e \<Rightarrow> Inl e
      | Inr (st', matched) \<Rightarrow> if matched then Inr st' else topic_outer fs_id c rest st')"

text \<open>Case 3: topic matching against the accepted candidates.\<close>

definition tier3_body :: "unicode_tables \<Rightarrow> ustr \<Rightarrow> ustr \<Rightarrow> candidate \<Rightarrow> run_state
     \<Rightarrow> py_error + run_state" where
  "tier3_body T fs_id full_name c st =
     (let full_name_tokens = sort (split T (normalize_name T full_name));
          candidate_tokens = sort (split T (normalize_name T (display_name c)))
      in if already_accepted (candidate_dict st) fs_id (cand_id c) then Inr st
         else (case gate candidate_tokens full_name_tokens full_name c st of
                 Inl e \<Rightarrow> Inl e
               | Inr (rejected, st') \<Rightarrow>
                   if rejected then Inr st'
                   else
                     (case max_by (\<lambda>ct. case ct_relevance_score ct of None \<Rightarrow> 0 | Some r \<Rightarrow> r)
                             (accepted (candidate_dict st') fs_id) of
                        None \<Rightarrow> Inr st'
                      | Some best_existing \<Rightarrow>
                          topic_outer fs_id c (take 2 (ct_topics best_existing)) st')))"

text \<open>
  \<open>search_openalex\<close>. \<open>authors_net\<close> answers the author search. The mutable
  dictionaries are the fields of the state, returned updated. \<open>pais\<close> is not read.
\<close>

definition search_openalex ::
  "unicode_tables \<Rightarrow> (ustr \<Rightarrow> institutions_page response) \<Rightarrow> (ustr \<Rightarrow> authors_page response)
     \<Rightarrow> ustr \<Rightarrow> ustr \<Rightarrow> ustr \<Rightarrow> ustr \<Rightarrow> ustr option \<Rightarrow> run_state
     \<Rightarrow> py_error + run_state" where
  "search_openalex T inst_net authors_net fs_id q_name full_name pais ins st =
     (case resolve_institution_id T inst_net ins (ins_cache st) of
        (ins_id, cache', _) \<Rightarrow>
          let st = st\<lparr>ins_cache := cache'\<rparr> in
          (case authors_net q_name of
             Raises \<Rightarrow> Inr st
           | Status code data \<Rightarrow>
               if code \<noteq> 200 then Inr st
               else
                 let st = (if fs_id \<notin> dom (candidate_dict st)
                           then st\<lparr>candidate_dict := (candidate_dict st)(fs_id \<mapsto> [])\<rparr>
                           else st)
                 in if meta_count data = 0 then Inr st
                    else
                      (case for_each (tier1_body T fs_id full_name) (results data) st of
                         Inl e \<Rightarrow> Inl e
                       | Inr st1 \<Rightarrow>
                           (case for_each (tier2_body T ins_id fs_id full_name)
                                   (results data) st1 of
                              Inl e \<Rightarrow> Inl e
                            | Inr st2 \<Rightarrow>
                                for_each (tier3_body T fs_id full_name) (results data) st2))))"

text \<open>
  The loop of \<open>run_openalex_pipeline\<close> over the rows of the input table, from empty
  dictionaries and the loaded cache; the result is the state the output table is
  built from.
\<close>

definition pipeline_body ::
  "unicode_tables \<Rightarrow> (ustr \<Rightarrow> institutions_page response) \<Rightarrow> (ustr \<Rightarrow> authors_page response)
     \<Rightarrow> row \<Rightarrow> run_state \<Rightarrow> py_error + run_state" where
  "pipeline_body T inst_net authors_net r st =
     search_openalex T inst_net authors_net (ID r) (Nombre r @ [32] @ Apellido_1 r)
       (Nombre_apellidos r) (Pais r) (Trabajo_institucion r) st"

definition run_openalex_pipeline ::
  "unicode_tables \<Rightarrow> (ustr \<Rightarrow> institutions_page response) \<Rightarrow> (ustr \<Rightarrow> authors_page response)
     \<Rightarrow> (ustr \<rightharpoonup> ustr) \<Rightarrow> row list \<Rightarrow> py_error + run_state" where
  "run_openalex_pipeline T inst_net authors_net loaded_cache df_main =
     for_each (pipeline_body T inst_net authors_net) df_main
       \<lparr> candidate_dict = Map.empty, reject_dict = Map.empty, ins_cache = loaded_cache \<rparr>"

section \<open>A fragment of the interpreter's character tables\<close>

text \<open>
  The concrete inputs below are evaluated on this table. Its entries are those of
  CPython 3 for the code points below 256, for U+2010 and for U+2122 (\<open>str.lower\<close>,
  NFKD, \<open>combining\<close>, \<open>isalnum\<close>, \<open>isspace\<close>), and those of \<open>unidecode\<close> for the code
  points below 128 and from 192 to 255. No such string holds a combining mark, so NFKD
  is the concatenation of the decompositions. Other code points are left as they are.
\<close>

definition lower_cp :: "cp \<Rightarrow> cp" where
  "lower_cp c =
     (if (65 \<le> c \<and> c \<le> 90) \<or> (192 \<le> c \<and> c \<le> 222 \<and> c \<noteq> 215) then c + 32 else c)"

definition nfkd_table :: "(cp \<times> ustr) list" where
  "nfkd_table =
     [(160, [32]), (168, [32, 776]), (170, [97]), (175, [32, 772]), (178, [50]),
      (179, [51]), (180, [32, 769]), (181, [956]), (184, [32, 807]), (185, [49]),
      (186, [111]), (188, [49, 8260, 52]), (189, [49, 8260, 50]), (190, [51, 8260, 52]),
      (192, [65, 768]), (193, [65, 769]), (194, [65, 770]), (195, [65, 771]),
      (196, [65, 776]), (197, [65, 778]), (199, [67, 807]), (200, [69, 768]),
      (201, [69, 769]), (202, [69, 770]), (203, [69, 776]), (204, [73, 768]),
      (205, [73, 769]), (206, [73, 770]), (207, [73, 776]), (209, [78, 771]),
      (210, [79, 768]), (211, [79, 769]), (212, [79, 770]), (213, [79, 771]),
      (214, [79, 776]), (217, [85, 768]), (218, [85, 769]), (219, [85, 770]),
      (220, [85, 776]), (221, [89, 769]), (224, [97, 768]), (225, [97, 769]),
      (226, [97, 770]), (227, [97, 771]), (228, [97, 776]), (229, [97, 778]),
      (231, [99, 807]), (232, [101, 768]), (233, [101, 769]), (234, [101, 770]),
      (235, [101, 776]), (236, [105, 768]), (237, [105, 769]), (238, [105, 770]),
      (239, [105, 776]), (241, [110, 771]), (242, [111, 768]), (243, [111, 769]),
      (244, [111, 770]), (245, [111, 771]), (246, [111, 776]), (249, [117, 768]),
      (250, [117, 769]), (251, [117, 770]), (252, [117, 776]), (253, [121, 769]),
      (255, [121, 776]), (8482, [84, 77])]"

definition nfkd_cp :: "cp \<Rightarrow> ustr" where
  "nfkd_cp c = (case map_of nfkd_table c of None \<Rightarrow> [c] | Some d \<Rightarrow> d)"

definition combining_cp :: "cp \<Rightarrow> nat" where
  "combining_cp c =
     (if c \<in> set [768, 769, 770, 771, 772, 776, 778] then 230
      else if c = 807 then 202 else 0)"

definition isalnum_cp :: "cp \<Rightarrow> bool" where
  "isalnum_cp c \<longleftrightarrow>
     (48 \<le> c \<and> c \<le> 57) \<or> (65 \<le> c \<and> c \<le> 90) \<or> (97 \<le> c \<and> c \<le> 122)
     \<or> c \<in> set [170, 178, 179, 181, 185, 186, 188, 189, 190, 956]
     \<or> (192 \<le> c \<and> c \<le> 255 \<and> c \<noteq> 215 \<and> c \<noteq> 247)"

definition isspace_cp :: "cp \<Rightarrow> bool" where
  "isspace_cp c \<longleftrightarrow> (9 \<le> c \<and> c \<le> 13) \<or> (28 \<le> c \<and> c \<le> 32) \<or> c = 133 \<or> c = 160"

definition unidecode_table :: "(cp \<times> string) list" where
  "unidecode_table =
     [(192, ''A''), (193, ''A''), (194, ''A''), (195, ''A''), (196, ''A''), (197, ''A''),
      (198, ''AE''), (199, ''C''), (200, ''E''), (201, ''E''), (202, ''E''), (203, ''E''),
      (204, ''I''), (205, ''I''), (206, ''I''), (207, ''I''), (208, ''D''), (209, ''N''),
      (210, ''O''), (211, ''O''), (212, ''O''), (213, ''O''), (214, ''O''), (215, ''x''),
      (216, ''O''), (217, ''U''), (218, ''U''), (219, ''U''), (220, ''U''), (221, ''Y''),
      (222, ''Th''), (223, ''ss''), (224, ''a''), (225, ''a''), (226, ''a''), (227, ''a''),
      (228, ''a''), (229, ''a''), (230, ''ae''), (231, ''c''), (232, ''e''), (233, ''e''),
      (234, ''e''), (235, ''e''), (236, ''i''), (237, ''i''), (238, ''i''), (239, ''i''),
      (240, ''d''), (241, ''n''), (242, ''o''), (243, ''o''), (244, ''o''), (245, ''o''),
      (246, ''o''), (247, ''/''), (248, ''o''), (249, ''u''), (250, ''u''), (251, ''u''),
      (252, ''u''), (253, ''y''), (254, ''th''), (255, ''y'')]"

definition unidecode_cp :: "cp \<Rightarrow> ustr" where
  "unidecode_cp c = (case map_of unidecode_table c of None \<Rightarrow> [c] | Some d \<Rightarrow> ustr d)"

definition latin1 :: unicode_tables where
  "latin1 =
     \<lparr> str_lower = map lower_cp,
       nfkd = (\<lambda>s. concat (map nfkd_cp s)),
       combining = combining_cp,
       isalnum = isalnum_cp,
       isspace = isspace_cp,
       unidecode = (\<lambda>s. concat (map unidecode_cp s)) \<rparr>"

section \<open>Invariants of the run state\<close>

text \<open>The source ids accepted so far for a researcher, in order of acceptance.\<close>

definition accepted_ids :: "run_state \<Rightarrow> ustr \<Rightarrow> ustr list" where
  "accepted_ids st k = map ct_alex_id (accepted (candidate_dict st) k)"

text \<open>
  How a later state relates to an earlier one: every list of accepted candidates has
  only grown at its end, the memo has only grown, and if no id was accepted twice
  before, none is now.
\<close>

definition advances :: "run_state \<Rightarrow> run_state \<Rightarrow> bool" where
  "advances st st' \<longleftrightarrow>
     (\<forall>k. \<exists>ext. accepted (candidate_dict st') k = accepted (candidate_dict st) k @ ext)
     \<and> dom (reject_dict st) \<subseteq> dom (reject_dict st')
     \<and> ((\<forall>k. distinct (accepted_ids st k)) \<longrightarrow> (\<forall>k. distinct (accepted_ids st' k)))"


section \<open>Sample inputs\<close>

text \<open>The name \<open>N\<acute>u\<tilde>nez-R\<acute>ios\<close> with its three accented letters (250, 241, 237).\<close>

text \<open>An institution name of two lines; 10 is the newline.\<close>

definition name_mit_two_lines :: ustr where
  "name_mit_two_lines = ustr ''MIT, Cambridge'' @ [10] @ ustr ''USA''"


definition three_author_work :: work where
  "three_author_work =
     \<lparr> work_id = Some (ustr ''W1''),
       authorships = [\<lparr> author_id = Some (ustr ''A1'') \<rparr>, \<lparr> author_id = Some (ustr ''A2'') \<rparr>,
                      \<lparr> author_id = Some (ustr ''A3'') \<rparr>] \<rparr>"


text \<open>
  Three CrossRef items for the target \<open>Ana Ruiz\<close>, institution \<open>Universidad de Zaragoza\<close>,
  reference year 2015: an author whose tokens strictly contain the target's with both
  secondary signals, the same author with neither, and a document without such an
  author but with both secondary signals.
\<close>

definition item_superset_both :: crossref_item where
  "item_superset_both =
     \<lparr> author = [\<lparr> given = ustr ''Ana Maria'', family = ustr ''Ruiz'',
                   affiliation = [ustr ''Universidad de Zaragoza''] \<rparr>],
       publisher = ustr ''Elsevier'', created = [[2016, 3, 1]], DOI = Some (ustr ''10.1/a'') \<rparr>"

definition item_superset_none :: crossref_item where
  "item_superset_none =
     \<lparr> author = [\<lparr> given = ustr ''Ana Maria'', family = ustr ''Ruiz'', affiliation = [] \<rparr>],
       publisher = ustr ''Elsevier'', created = [[2001, 1, 1]], DOI = Some (ustr ''10.1/b'') \<rparr>"

definition item_no_subset :: crossref_item where
  "item_no_subset =
     \<lparr> author = [\<lparr> given = ustr ''Luis'', family = ustr ''Ruiz'',
                   affiliation = [ustr ''Universidad de Zaragoza''] \<rparr>],
       publisher = ustr ''Elsevier'', created = [[2015, 6, 1]], DOI = Some (ustr ''10.1/c'') \<rparr>"

text \<open>
  Two more items for the same target: the first item again but without a DOI, and a
  document whose author is exactly the target, with neither secondary signal.
\<close>

definition item_top_nodoi :: crossref_item where
  "item_top_nodoi =
     \<lparr> author = [\<lparr> given = ustr ''Ana Maria'', family = ustr ''Ruiz'',
                   affiliation = [ustr ''Universidad de Zaragoza''] \<rparr>],
       publisher = ustr ''Elsevier'', created = [[2016, 3, 1]], DOI = None \<rparr>"

definition item_exact :: crossref_item where
  "item_exact =
     \<lparr> author = [\<lparr> given = ustr ''Ana'', family = ustr ''Ruiz'', affiliation = [] \<rparr>],
       publisher = ustr ''Elsevier'', created = [[2001, 1, 1]], DOI = Some (ustr ''10.1/e'') \<rparr>"

text \<open>
  One researcher and four author records of the source: an exact name match, an
  initial-and-surname profile at the researcher's institution, a profile with a foreign
  surname, and a profile at another institution that shares a topic field with the
  first one. U+00F3 (243) is the accented o.
\<close>

definition name_ana_ruiz_gomez :: ustr where
  "name_ana_ruiz_gomez = ustr ''Ana Ruiz G'' @ [243] @ ustr ''mez''"

definition name_ana_gomez :: ustr where
  "name_ana_gomez = ustr ''Ana G'' @ [243] @ ustr ''mez''"

definition cand_exact :: candidate where
  "cand_exact =
     \<lparr> cand_id = ustr ''A1'', display_name = name_ana_ruiz_gomez,
       display_name_alternatives = [], affiliation_ids = [Some (ustr ''I1'')],
       topics = [\<lparr> field_display_name = ustr ''Chemistry'' \<rparr>],
       ids = [(ustr ''orcid'', ustr ''0000-0001'')], works_count = Some 12,
       cited_by_count = Some 40, summary_stats = [] \<rparr>"

definition cand_initial :: candidate where
  "cand_initial =
     \<lparr> cand_id = ustr ''A2'', display_name = ustr ''A. Ruiz'',
       display_name_alternatives = [], affiliation_ids = [Some (ustr ''I1'')],
       topics = [\<lparr> field_display_name = ustr ''Physics'' \<rparr>],
       ids = [], works_count = Some 3, cited_by_count = Some 5, summary_stats = [] \<rparr>"

definition cand_smith :: candidate where
  "cand_smith =
     \<lparr> cand_id = ustr ''A3'', display_name = ustr ''Ana Smith'',
       display_name_alternatives = [], affiliation_ids = [Some (ustr ''I1'')],
       topics = [\<lparr> field_display_name = ustr ''Chemistry'' \<rparr>],
       ids = [], works_count = Some 7, cited_by_count = Some 9, summary_stats = [] \<rparr>"

definition cand_topic :: candidate where
  "cand_topic =
     \<lparr> cand_id = ustr ''A4'', display_name = name_ana_gomez,
       display_name_alternatives = [], affiliation_ids = [Some (ustr ''I9'')],
       topics = [\<lparr> field_display_name = ustr ''Medicine'' \<rparr>,
                 \<lparr> field_display_name = ustr ''Chemistry'' \<rparr>],
       ids = [], works_count = Some 2, cited_by_count = Some 1, summary_stats = [] \<rparr>"

definition sample_authors_net :: "ustr \<Rightarrow> authors_page response" where
  "sample_authors_net q =
     Status 200 \<lparr> meta_count = 4, results = [cand_exact, cand_initial, cand_smith, cand_topic] \<rparr>"

definition sample_inst_net :: "ustr \<Rightarrow> institutions_page response" where
  "sample_inst_net q = Status 200 \<lparr> inst_results = [ustr ''I1''] \<rparr>"

definition stored :: "candidate \<Rightarrow> candidate_tuple" where
  "stored c = make_tuple (ustr ''P1'') c (display_name c) (display_name_alternatives c)"

definition sample_start :: run_state where
  "sample_start = \<lparr> candidate_dict = Map.empty, reject_dict = Map.empty, ins_cache = Map.empty \<rparr>"

text \<open>The states after the key of the researcher is set, after case 1 and after case 2.\<close>

definition sample_keyed :: run_state where
  "sample_keyed =
     \<lparr> candidate_dict = [ustr ''P1'' \<mapsto> []], reject_dict = Map.empty,
       ins_cache = [ustr ''Universidad de Zaragoza'' \<mapsto> ustr ''I1''] \<rparr>"

definition sample_tier1 :: run_state where
  "sample_tier1 =
     \<lparr> candidate_dict = [ustr ''P1'' \<mapsto> [stored cand_exact]], reject_dict = Map.empty,
       ins_cache = [ustr ''Universidad de Zaragoza'' \<mapsto> ustr ''I1''] \<rparr>"

definition sample_tier2 :: run_state where
  "sample_tier2 =
     \<lparr> candidate_dict = [ustr ''P1'' \<mapsto> [stored cand_exact, stored cand_initial]],
       reject_dict = [ustr ''A3'' \<mapsto> True],
       ins_cache = [ustr ''Universidad de Zaragoza'' \<mapsto> ustr ''I1''] \<rparr>"

definition sample_end :: run_state where
  "sample_end =
     \<lparr> candidate_dict = [ustr ''P1'' \<mapsto> [stored cand_exact, stored cand_initial, stored cand_topic]],
       reject_dict = [ustr ''A3'' \<mapsto> True],
       ins_cache = [ustr ''Universidad de Zaragoza'' \<mapsto> ustr ''I1''] \<rparr>"

section \<open>Evaluation on the table fragment\<close>

lemma latin1_simps:
  "str_lower latin1 = map lower_cp"
  "nfkd latin1 s = concat (map nfkd_cp s)"
  "combining latin1 = combining_cp"
  "isalnum latin1 = isalnum_cp"
  "isspace latin1 = isspace_cp"
  "unidecode latin1 s = concat (map unidecode_cp s)"
  by (simp_all add: latin1_def)

lemmas cp_num =
  lower_cp_def [of "numeral k"] nfkd_cp_def [of "numeral k"] combining_cp_def [of "numeral k"]
  isalnum_cp_def [of "numeral k"] isspace_cp_def [of "numeral k"] unidecode_cp_def [of "numeral k"]
  for k

lemmas ev = latin1_simps cp_num nfkd_table_def unidecode_table_def ustr_def strip_def split_def
  is_word_def drop_punct_def

section \<open>The bag-of-words gate\<close>

lemma ex_less_Suc_shift: "(\<exists>j<Suc n. P j) \<longleftrightarrow> P 0 \<or> (\<exists>j<n. P (Suc j))"
  by (metis less_Suc_eq_0_disj)

lemma token_checks_iff:
  assumes "[] \<notin> set ft"
  shows "token_checks i ct ft = Inr (\<exists>j<length ct. token_fails ft (i + j) (ct ! j))"
proof (induction ct arbitrary: i)
  case Nil
  show ?case by simp
next
  case (Cons token rest)
  have IH: "token_checks (Suc i) rest ft
              = Inr (\<exists>j<length rest. token_fails ft (i + Suc j) (rest ! j))"
    using Cons.IH [of "Suc i"] by simp
  show ?case
  proof (cases "i \<ge> length ft")
    case True
    then have "token_fails ft (i + 0) ((token # rest) ! 0)" by (simp add: token_fails_def)
    then have "\<exists>j<length (token # rest). token_fails ft (i + j) ((token # rest) ! j)"
      by (intro exI [of _ 0]) simp
    with True show ?thesis by simp
  next
    case False
    then have ne: "ft ! i \<noteq> []" using assms by (metis not_le nth_mem)
    then obtain c cs where fc: "ft ! i = c # cs" by (cases "ft ! i") auto
    have fails0: "token_fails ft i token
                    \<longleftrightarrow> (length token < 2 \<and> token \<noteq> [c]) \<or> (length token \<ge> 2 \<and> token \<notin> set ft)"
      using False fc by (simp add: token_fails_def)
    show ?thesis
      unfolding length_Cons ex_less_Suc_shift
      using False fc fails0 IH by (auto simp: not_less)
  qed
qed

lemma split_from_nonempty: "[] \<notin> set (split_from T cur s)"
  by (induction s arbitrary: cur) auto

lemma split_nonempty: "[] \<notin> set (split T s)"
  by (simp add: split_def split_from_nonempty)

text \<open>
  C1 (amended). For a candidate whose id is not in the rejection memo, and a target
  token list without empty tokens (as \<open>split\<close> produces), the gate rejects if and only if
  some candidate token fails its check at its position: the position is beyond the
  target list, or the token is shorter than 2 and differs from the first character of
  the target token at that position, or it has length at least 2 and is not a member
  of the target list.
\<close>

theorem gate_rejects_iff_token_fails:
  assumes "candidate_alex_id \<notin> dom memo" and "[] \<notin> set full_name_tokens"
  shows "bag_of_words_reject candidate_tokens full_name_tokens candidate_name full_name
           memo candidate_alex_id
         = Inr (\<exists>i<length candidate_tokens.
                  token_fails full_name_tokens i (candidate_tokens ! i))"
  using assms token_checks_iff [of full_name_tokens 0 candidate_tokens]
  by (simp add: bag_of_words_reject_def)

theorem gate_rejects_iff_token_fails_witness:
  "ustr ''A1'' \<notin> dom (Map.empty :: ustr \<rightharpoonup> bool)
   \<and> [] \<notin> set (map ustr [''juan'', ''garcia'', ''lopez''])
   \<and> bag_of_words_reject (map ustr [''j'', ''garcia'']) (map ustr [''juan'', ''garcia'', ''lopez''])
        (ustr ''J Garcia'') (ustr ''Juan Garcia Lopez'') Map.empty (ustr ''A1'') = Inr False
   \<and> bag_of_words_reject (map ustr [''juan'', ''garcia'', ''smith''])
        (map ustr [''juan'', ''garcia'', ''lopez''])
        (ustr ''Juan Garcia Smith'') (ustr ''Juan Garcia Lopez'') Map.empty (ustr ''A1'') = Inr True"
proof -
  have d: "ustr ''A1'' \<notin> dom (Map.empty :: ustr \<rightharpoonup> bool)" by simp
  have n: "[] \<notin> set (map ustr [''juan'', ''garcia'', ''lopez''])" by (simp add: ustr_def)
  have a: "\<not> (\<exists>i<length (map ustr [''j'', ''garcia'']).
             token_fails (map ustr [''juan'', ''garcia'', ''lopez'']) i (map ustr [''j'', ''garcia''] ! i))"
    by (simp add: ex_less_Suc_shift token_fails_def ustr_def)
  have b: "\<exists>i<length (map ustr [''juan'', ''garcia'', ''smith'']).
             token_fails (map ustr [''juan'', ''garcia'', ''lopez'']) i
               (map ustr [''juan'', ''garcia'', ''smith''] ! i)"
    by (simp add: ex_less_Suc_shift token_fails_def ustr_def)
  show ?thesis
    using d n a b
      gate_rejects_iff_token_fails [OF d n, of "map ustr [''j'', ''garcia'']"
        "ustr ''J Garcia''" "ustr ''Juan Garcia Lopez''"]
      gate_rejects_iff_token_fails [OF d n, of "map ustr [''juan'', ''garcia'', ''smith'']"
        "ustr ''Juan Garcia Smith''" "ustr ''Juan Garcia Lopez''"]
    by simp
qed

theorem gate_memo_counterexample:
  "token_checks 0 (map ustr [''j'', ''garcia'']) (map ustr [''juan'', ''garcia'', ''lopez''])
     = Inr False
   \<and> bag_of_words_reject (map ustr [''j'', ''garcia'']) (map ustr [''juan'', ''garcia'', ''lopez''])
        (ustr ''J Garcia'') (ustr ''Juan Garcia Lopez'') [ustr ''A1'' \<mapsto> True] (ustr ''A1'')
     = Inr True"
  by (simp add: bag_of_words_reject_def ustr_def)

section \<open>The Hispanic name parser\<close>

lemma tokens_juan_carlos:
  "split latin1 (str_lower latin1 (ustr ''Juan Carlos Perez Lopez''))
     = map ustr [''juan'', ''carlos'', ''perez'', ''lopez'']"
  by (simp add: ev)

lemma tokens_juan:
  "split latin1 (str_lower latin1 (ustr ''Juan Perez Lopez''))
     = map ustr [''juan'', ''perez'', ''lopez'']"
  by (simp add: ev)

lemma tokens_ana:
  "split latin1 (str_lower latin1 (ustr ''Ana Ruiz'')) = map ustr [''ana'', ''ruiz'']"
  by (simp add: ev)

text \<open>
  C2 (amended). With \<open>tokens\<close> the whitespace-separated tokens of the lower-cased name:
  fewer than 2 tokens give both surnames null (and the tokens as first names); exactly
  2 tokens give the first token as the only first name, the second as paternal surname
  and no maternal surname; 3 or more tokens give the second-to-last token as paternal
  surname, the last token as maternal surname, and the FIRST token alone as the list of
  first names. With 4 or more tokens the first-name list is therefore never the list of
  all remaining leading tokens.
\<close>

theorem parse_spanish_name_first_token_only:
  "parse_spanish_name T full_name =
     (let tokens = split T (str_lower T full_name) in
      if length tokens < 2 then (tokens, None, None)
      else if length tokens = 2 then ([hd tokens], Some (last tokens), None)
      else ([hd tokens], Some (last (butlast tokens)), Some (last tokens)))
   \<and> (length (split T (str_lower T full_name)) \<ge> 4 \<longrightarrow>
        fst (parse_spanish_name T full_name)
          \<noteq> butlast (butlast (split T (str_lower T full_name))))"
proof -
  define tokens where "tokens = split T (str_lower T full_name)"
  have two: "length tokens = 2 \<Longrightarrow> tokens ! 1 = last tokens \<and> tokens ! 0 = hd tokens"
    by (cases tokens rule: rev_cases) (auto simp: nth_append hd_conv_nth)
  have more: "length tokens > 2 \<Longrightarrow>
      tokens ! (length tokens - 2) = last (butlast tokens)
      \<and> tokens ! (length tokens - 1) = last tokens \<and> tokens ! 0 = hd tokens"
  proof -
    assume l: "length tokens > 2"
    then have ne1: "tokens \<noteq> []" by auto
    have ne2: "butlast tokens \<noteq> []"
    proof
      assume "butlast tokens = []"
      then have "length (butlast tokens) = 0" by simp
      then show False using l by simp
    qed
    note ne = ne1 ne2
    have "last (butlast tokens) = butlast tokens ! (length (butlast tokens) - 1)"
      using ne by (simp add: last_conv_nth)
    also have "\<dots> = tokens ! (length tokens - 2)"
      using l by (simp add: nth_butlast numeral_2_eq_2)
    finally show ?thesis using ne by (simp add: last_conv_nth hd_conv_nth)
  qed
  have a: "parse_spanish_name T full_name =
     (if length tokens < 2 then (tokens, None, None)
      else if length tokens = 2 then ([hd tokens], Some (last tokens), None)
      else ([hd tokens], Some (last (butlast tokens)), Some (last tokens)))"
    using two more by (auto simp: parse_spanish_name_def Let_def tokens_def [symmetric])
  have b: "length tokens \<ge> 4 \<Longrightarrow> fst (parse_spanish_name T full_name) \<noteq> butlast (butlast tokens)"
  proof -
    assume l: "length tokens \<ge> 4"
    then have "length (fst (parse_spanish_name T full_name)) = 1" unfolding a by simp
    moreover have "length (butlast (butlast tokens)) \<ge> 2" using l by simp
    ultimately show ?thesis by auto
  qed
  show ?thesis using a b by (simp add: Let_def tokens_def)
qed

theorem parse_spanish_name_first_token_only_witness:
  "parse_spanish_name latin1 (ustr ''Ana Ruiz'') = ([ustr ''ana''], Some (ustr ''ruiz''), None)
   \<and> parse_spanish_name latin1 (ustr ''Juan Perez Lopez'')
       = ([ustr ''juan''], Some (ustr ''perez''), Some (ustr ''lopez''))
   \<and> length (split latin1 (str_lower latin1 (ustr ''Juan Carlos Perez Lopez''))) \<ge> 4
   \<and> fst (parse_spanish_name latin1 (ustr ''Juan Carlos Perez Lopez''))
       \<noteq> butlast (butlast (split latin1 (str_lower latin1 (ustr ''Juan Carlos Perez Lopez''))))"
  using parse_spanish_name_first_token_only [of latin1 "ustr ''Ana Ruiz''"]
    parse_spanish_name_first_token_only [of latin1 "ustr ''Juan Perez Lopez''"]
    parse_spanish_name_first_token_only [of latin1 "ustr ''Juan Carlos Perez Lopez''"]
  unfolding tokens_ana tokens_juan tokens_juan_carlos
  by (simp add: Let_def)

theorem parse_spanish_name_middle_names_counterexample:
  "split latin1 (str_lower latin1 (ustr ''Juan Carlos Perez Lopez''))
     = map ustr [''juan'', ''carlos'', ''perez'', ''lopez'']
   \<and> parse_spanish_name latin1 (ustr ''Juan Carlos Perez Lopez'')
       = ([ustr ''juan''], Some (ustr ''perez''), Some (ustr ''lopez''))
   \<and> parse_spanish_name latin1 (ustr ''Juan Carlos Perez Lopez'')
       \<noteq> (map ustr [''juan'', ''carlos''], Some (ustr ''perez''), Some (ustr ''lopez''))"
  unfolding parse_spanish_name_def tokens_juan_carlos
  by (simp add: Let_def)

section \<open>The cross-linker\<close>

text \<open>
  C7. When the lookup of the DOI answers with status 200 and an author list of length
  \<open>n\<close>, the cross-linker returns, without raising, the work id together with the
  identifier of the author at 0-based index \<open>p - 1\<close> if \<open>1 \<le> p \<le> n\<close>, and a null author
  identifier if \<open>p > n\<close> or \<open>p \<le> 0\<close>.
\<close>

theorem cross_linker_position:
  assumes "work_net (strip T doi) = Status 200 data"
  shows "openalex_for_doi_by_index T work_net doi p
         = Inr (work_id data,
                if 1 \<le> p \<and> p \<le> int (length (authorships data))
                then author_id (authorships data ! nat (p - 1)) else None)"
  using assms by (auto simp: openalex_for_doi_by_index_def Let_def)

theorem cross_linker_position_witness:
  "(\<lambda>_. Status 200 three_author_work) (strip latin1 (ustr ''10.1/x'')) = Status 200 three_author_work
   \<and> openalex_for_doi_by_index latin1 (\<lambda>_. Status 200 three_author_work) (ustr ''10.1/x'') 2
       = Inr (Some (ustr ''W1''), Some (ustr ''A2''))
   \<and> openalex_for_doi_by_index latin1 (\<lambda>_. Status 200 three_author_work) (ustr ''10.1/x'') 5
       = Inr (Some (ustr ''W1''), None)
   \<and> openalex_for_doi_by_index latin1 (\<lambda>_. Status 200 three_author_work) (ustr ''10.1/x'') 0
       = Inr (Some (ustr ''W1''), None)"
  using cross_linker_position [of "\<lambda>_. Status 200 three_author_work" latin1 "ustr ''10.1/x''"
          three_author_work 2]
    cross_linker_position [of "\<lambda>_. Status 200 three_author_work" latin1 "ustr ''10.1/x''"
          three_author_work 5]
    cross_linker_position [of "\<lambda>_. Status 200 three_author_work" latin1 "ustr ''10.1/x''"
          three_author_work 0]
  by (simp add: three_author_work_def)

section \<open>Trimming\<close>

lemma set_strip: "set (strip T s) \<subseteq> set s"
  by (auto simp: strip_def dest!: set_dropWhileD)

lemma last_dropWhile: "dropWhile P xs \<noteq> [] \<Longrightarrow> last (dropWhile P xs) = last xs"
  by (induction xs) (auto split: if_splits)

lemma strip_ends:
  "strip T s = [] \<or> (\<not> isspace T (hd (strip T s)) \<and> \<not> isspace T (last (strip T s)))"
proof (cases "strip T s = []")
  case True
  then show ?thesis by simp
next
  case False
  let ?t = "dropWhile (isspace T) s"
  let ?u = "dropWhile (isspace T) (rev ?t)"
  have u: "?u \<noteq> []" using False by (simp add: strip_def)
  have t: "?t \<noteq> []"
  proof
    assume "?t = []"
    then have "?u = []" by (simp del: dropWhile_eq_Nil_conv)
    with u show False by blast
  qed
  have "last (strip T s) = hd ?u" by (simp add: strip_def last_rev)
  then have a: "\<not> isspace T (last (strip T s))" using hd_dropWhile [OF u] by simp
  have "hd (strip T s) = last ?u" by (simp add: strip_def hd_rev)
  also have "\<dots> = last (rev ?t)" using last_dropWhile [OF u] .
  also have "\<dots> = hd ?t" by (simp add: last_rev)
  finally have b: "\<not> isspace T (hd (strip T s))" using hd_dropWhile [OF t] by simp
  show ?thesis using a b by simp
qed



section \<open>The institution resolver\<close>

lemma clean_mit_parenthesis: "ins_clean latin1 (Some (ustr ''MIT (Cambridge)'')) = ustr ''MIT''"
  by (simp add: ins_clean_def strip_qualifiers_def ev)

lemma clean_mit_comma: "ins_clean latin1 (Some (ustr ''MIT, Cambridge'')) = ustr ''MIT''"
  by (simp add: ins_clean_def strip_qualifiers_def ev)

lemma resolve_hit:
  assumes "cache (ins_clean T ins_name) = Some cached"
  shows "resolve_institution_id T inst_net ins_name cache
         = (if cached = MANUAL_REQUIRED then None else Some cached, cache, [])"
  using assms by (simp add: resolve_institution_id_def)

lemma resolve_fills_key:
  "ins_clean T ins_name \<in> dom (fst (snd (resolve_institution_id T inst_net ins_name cache)))"
  by (auto simp: resolve_institution_id_def Let_def split: option.splits response.splits list.splits)

lemma alt_match_separator: "c = 44 \<or> c = 47 \<or> c = 45 \<Longrightarrow> alt_match (c # cs) \<noteq> None"
  by auto

lemma qualifier_match_separator:
  "c = 44 \<or> c = 47 \<or> c = 45 \<Longrightarrow> qualifier_match T (c # cs) \<noteq> None"
  using alt_match_separator [of c cs] by (auto split: option.splits)

lemma sub_from_no_separator:
  "c \<in> set (sub_from T skip s) \<Longrightarrow> c \<noteq> 44 \<and> c \<noteq> 47 \<and> c \<noteq> 45"
proof (induction s arbitrary: skip)
  case Nil
  then show ?case by simp
next
  case (Cons d ds)
  show ?case
  proof (cases "skip > 0")
    case True
    with Cons show ?thesis by simp
  next
    case False
    show ?thesis
    proof (cases "qualifier_match T (d # ds)")
      case None
      then have "d \<noteq> 44 \<and> d \<noteq> 47 \<and> d \<noteq> 45"
        using qualifier_match_separator [of d T ds] by blast
      with Cons None False show ?thesis by auto
    next
      case (Some r)
      with Cons False show ?thesis by simp
    qed
  qed
qed

lemma ins_clean_no_separator:
  "c \<in> set (ins_clean T ins_name) \<Longrightarrow> c \<noteq> 44 \<and> c \<noteq> 47 \<and> c \<noteq> 45"
  using set_strip sub_from_no_separator unfolding ins_clean_def strip_qualifiers_def by blast

subsection \<open>What the cleaning removes and what it keeps\<close>

lemma paren_close_rest: "paren_close s = Some r \<Longrightarrow> \<exists>m. s = m @ r \<and> m \<noteq> []"
proof (induction s)
  case Nil
  then show ?case by simp
next
  case (Cons c cs)
  show ?case
  proof (cases "c = 41")
    case True
    with Cons.prems have "c # cs = [c] @ r" by simp
    then show ?thesis by blast
  next
    case False
    with Cons.prems have "c \<noteq> 10" and "paren_close cs = Some r" by (auto split: if_splits)
    from Cons.IH [OF this(2)] obtain m where "cs = m @ r" by blast
    then have "c # cs = (c # m) @ r" by simp
    then show ?thesis by blast
  qed
qed

lemma alt_match_rest: "alt_match s = Some r \<Longrightarrow> \<exists>m. s = m @ r \<and> m \<noteq> []"
proof (cases s)
  case Nil
  assume "alt_match s = Some r"
  with Nil show ?thesis by simp
next
  case (Cons c cs)
  assume a: "alt_match s = Some r"
  show ?thesis
  proof (cases "c = 40")
    case True
    with a Cons have "paren_close cs = Some r" by simp
    from paren_close_rest [OF this] obtain m where "cs = m @ r" by blast
    then have "s = (c # m) @ r" using Cons by simp
    then show ?thesis by blast
  next
    case False
    with a Cons have "r = dropWhile (\<lambda>d. d \<noteq> 10) cs" by (auto split: if_splits)
    then have "s = (c # takeWhile (\<lambda>d. d \<noteq> 10) cs) @ r" using Cons by simp
    then show ?thesis by blast
  qed
qed

lemma qualifier_match_rest: "qualifier_match T s = Some r \<Longrightarrow> \<exists>m. s = m @ r \<and> m \<noteq> []"
proof (induction s)
  case Nil
  then show ?case by simp
next
  case (Cons c cs)
  show ?case
  proof (cases "isspace T c \<and> qualifier_match T cs \<noteq> None")
    case True
    with Cons.prems have "qualifier_match T cs = Some r" by auto
    from Cons.IH [OF this] obtain m where "cs = m @ r" by blast
    then have "c # cs = (c # m) @ r" by simp
    then show ?thesis by blast
  next
    case False
    with Cons.prems have "alt_match (c # cs) = Some r" by (auto split: if_splits option.splits)
    then show ?thesis by (rule alt_match_rest)
  qed
qed

lemma sub_from_skip: "sub_from T n s = sub_from T 0 (drop n s)"
proof (induction s arbitrary: n)
  case Nil
  then show ?case by simp
next
  case (Cons c cs)
  show ?case
  proof (cases n)
    case 0
    then show ?thesis by simp
  next
    case (Suc k)
    then show ?thesis using Cons [of k] by simp
  qed
qed

lemma strip_qualifiers_match:
  assumes "qualifier_match T s = Some r"
  shows "strip_qualifiers T s = strip_qualifiers T r"
proof -
  from qualifier_match_rest [OF assms] obtain m where m: "s = m @ r" "m \<noteq> []" by blast
  then obtain c m' where c: "m = c # m'" by (cases m) auto
  have "strip_qualifiers T s = sub_from T (length (m' @ r) - length r) (m' @ r)"
    using assms m c by (simp add: strip_qualifiers_def)
  also have "\<dots> = sub_from T 0 (drop (length m') (m' @ r))"
    using sub_from_skip [of T "length m'" "m' @ r"] by simp
  finally show ?thesis by (simp add: strip_qualifiers_def)
qed

lemma strip_qualifiers_no_match:
  "qualifier_match T (c # cs) = None \<Longrightarrow> strip_qualifiers T (c # cs) = c # strip_qualifiers T cs"
  by (simp add: strip_qualifiers_def)

lemma alt_match_plain: "c \<notin> {40, 44, 47, 45} \<Longrightarrow> alt_match (c # cs) = None"
  by simp

lemma qualifier_match_plain:
  "\<forall>x\<in>set pre. x \<notin> {40, 44, 47, 45} \<Longrightarrow> pre = [] \<or> (\<exists>x\<in>set pre. \<not> isspace T x) \<Longrightarrow>
     pre = [] \<or> qualifier_match T (pre @ t) = None"
proof (induction pre)
  case Nil
  then show ?case by simp
next
  case (Cons p ps)
  have plain: "alt_match (p # ps @ t) = None" using Cons.prems(1) by simp
  show ?case
  proof (cases "isspace T p")
    case False
    then show ?thesis using plain by simp
  next
    case True
    then have "\<exists>x\<in>set ps. \<not> isspace T x" using Cons.prems(2) by auto
    then have "ps \<noteq> []" and "ps = [] \<or> (\<exists>x\<in>set ps. \<not> isspace T x)" by auto
    then have "qualifier_match T (ps @ t) = None" using Cons.IH Cons.prems(1) by auto
    then show ?thesis using True plain by simp
  qed
qed

lemma qualifier_match_all_plain:
  "\<forall>x\<in>set s. x \<notin> {40, 44, 47, 45} \<Longrightarrow> qualifier_match T s = None"
  by (induction s) auto

lemma strip_qualifiers_plain:
  "\<forall>x\<in>set s. x \<notin> {40, 44, 47, 45} \<Longrightarrow> strip_qualifiers T s = s"
proof (induction s)
  case Nil
  then show ?case by (simp add: strip_qualifiers_def)
next
  case (Cons c cs)
  have "qualifier_match T (c # cs) = None" using Cons.prems by (rule qualifier_match_all_plain)
  then show ?case using Cons by (simp add: strip_qualifiers_no_match)
qed

lemma qualifier_match_after_space:
  "\<forall>x\<in>set ws. isspace T x \<Longrightarrow> qualifier_match T t = Some r \<Longrightarrow>
     qualifier_match T (ws @ t) = Some r"
  by (induction ws) auto

lemma rtrim_Cons:
  "rev (dropWhile P (rev (p # ps)))
     = (if \<forall>x\<in>set (p # ps). P x then [] else p # rev (dropWhile P (rev ps)))"
proof (cases "\<forall>x\<in>set ps. P x")
  case True
  then have "dropWhile P (rev ps @ [p]) = dropWhile P [p]" by (intro dropWhile_append2) simp
  moreover have "dropWhile P (rev ps) = []" using True by simp
  ultimately show ?thesis using True by simp
next
  case False
  then obtain x where "x \<in> set (rev ps)" "\<not> P x" by auto
  then have "dropWhile P (rev ps @ [p]) = dropWhile P (rev ps) @ [p]" by (rule dropWhile_append1)
  then show ?thesis using False by auto
qed

text \<open>
  The first qualifier of a name: the text before it holds no parenthesis, comma, slash
  or dash; the qualifier and the whitespace before it go, the text before it stays, and
  the cleaning goes on behind the qualifier.
\<close>

lemma strip_qualifiers_first:
  assumes "\<forall>x\<in>set pre. x \<notin> {40, 44, 47, 45}" and "\<not> isspace T c"
    and "alt_match (c # u) = Some r"
  shows "strip_qualifiers T (pre @ c # u)
         = rev (dropWhile (isspace T) (rev pre)) @ strip_qualifiers T r"
  using assms(1)
proof (induction pre)
  case Nil
  have "qualifier_match T (c # u) = Some r" using assms(2,3) by simp
  then show ?case using strip_qualifiers_match by simp
next
  case (Cons p ps)
  have m: "qualifier_match T (c # u) = Some r" using assms(2,3) by simp
  show ?case
  proof (cases "\<forall>x\<in>set (p # ps). isspace T x")
    case True
    then have "qualifier_match T ((p # ps) @ c # u) = Some r"
      using m by (intro qualifier_match_after_space) auto
    then have e: "strip_qualifiers T ((p # ps) @ c # u) = strip_qualifiers T r"
      by (rule strip_qualifiers_match)
    have rt: "rev (dropWhile (isspace T) (rev (p # ps))) = []"
      unfolding rtrim_Cons using True by simp
    show ?thesis unfolding rt e by simp
  next
    case False
    then have "qualifier_match T ((p # ps) @ c # u) = None"
      using qualifier_match_plain [of "p # ps" T "c # u"] Cons.prems by auto
    then have "strip_qualifiers T ((p # ps) @ c # u) = p # strip_qualifiers T (ps @ c # u)"
      using strip_qualifiers_no_match by simp
    also have "\<dots> = p # rev (dropWhile (isspace T) (rev ps)) @ strip_qualifiers T r"
      using Cons by simp
    finally have e: "strip_qualifiers T ((p # ps) @ c # u)
                       = p # rev (dropWhile (isspace T) (rev ps)) @ strip_qualifiers T r" .
    have rt: "rev (dropWhile (isspace T) (rev (p # ps)))
                = p # rev (dropWhile (isspace T) (rev ps))"
      unfolding rtrim_Cons using False by simp
    show ?thesis unfolding rt e by simp
  qed
qed

lemma paren_close_inner:
  "41 \<notin> set inner \<Longrightarrow> 10 \<notin> set inner \<Longrightarrow> paren_close (inner @ 41 # post) = Some post"
  by (induction inner) auto

lemma strip_rtrim: "strip T (rev (dropWhile (isspace T) (rev p))) = strip T p"
proof -
  have comm: "dropWhile P (rev (dropWhile P (rev q))) = rev (dropWhile P (rev (dropWhile P q)))"
    for P :: "cp \<Rightarrow> bool" and q
  proof (induction q)
    case Nil
    then show ?case by simp
  next
    case (Cons x xs)
    show ?case
    proof (cases "\<forall>y\<in>set (x # xs). P y")
      case True
      then have "dropWhile P (x # xs) = []" by simp
      then show ?thesis using True by (simp only: rtrim_Cons if_True) simp
    next
      case False
      show ?thesis
      proof (cases "P x")
        case True
        then show ?thesis using False Cons by (simp only: rtrim_Cons if_False) simp
      next
        case nP: False
        have rt: "rev (dropWhile P (rev (x # xs))) = x # rev (dropWhile P (rev xs))"
          unfolding rtrim_Cons using False by simp
        have dw: "dropWhile P (x # xs) = x # xs" using nP by simp
        show ?thesis unfolding dw rt using nP by simp
      qed
    qed
  qed
  have "strip T (rev (dropWhile (isspace T) (rev p)))
          = rev (dropWhile (isspace T) (rev (rev (dropWhile (isspace T) (rev (dropWhile (isspace T) p))))))"
    unfolding strip_def comm ..
  then show ?thesis by (simp add: strip_def)
qed

text \<open>
  C8 (amended). The cache key is the cleaned institution name. A name without
  parenthesis, comma, slash or dash is only trimmed. At the first comma, slash or dash
  the text up to the end of that line goes, with the whitespace before it, and what is
  left of a single-line name is the trimmed text before it; the lines after that line
  are cleaned in turn and stay in the key. At the first parenthetical that closes on
  its line the parenthetical goes, with the whitespace before it, and the cleaning
  goes on with the text behind it. Every key is trimmed and holds no comma (44), slash
  (47) or dash (45); the two spellings of MIT give the same key. When the key is in the
  cache the resolver sends nothing over the network, leaves the cache as it is, and
  returns null exactly when the cached value is \<open>MANUAL_REQUIRED\<close> and the cached id
  otherwise. After any call the key is in the cache, so a second call for the same
  cleaned name sends nothing.
\<close>

theorem resolver_cleaning_and_cache_hit:
  "ins_clean latin1 (Some (ustr ''MIT (Cambridge)'')) = ins_clean latin1 (Some (ustr ''MIT, Cambridge''))
   \<and> ((\<forall>x\<in>set s. x \<notin> {40, 44, 47, 45}) \<longrightarrow> ins_clean T (Some s) = strip T s)
   \<and> ((\<forall>x\<in>set pre. x \<notin> {40, 44, 47, 45}) \<and> c \<in> {44, 47, 45} \<and> \<not> isspace T c
        \<and> 10 \<notin> set line \<longrightarrow>
         ins_clean T (Some (pre @ c # line)) = strip T pre
         \<and> ins_clean T (Some (pre @ c # line @ 10 # below))
             = strip T (rev (dropWhile (isspace T) (rev pre)) @ strip_qualifiers T (10 # below)))
   \<and> ((\<forall>x\<in>set pre. x \<notin> {40, 44, 47, 45}) \<and> \<not> isspace T 40
        \<and> 41 \<notin> set inner \<and> 10 \<notin> set inner \<longrightarrow>
         ins_clean T (Some (pre @ 40 # inner @ 41 # post))
           = strip T (rev (dropWhile (isspace T) (rev pre)) @ strip_qualifiers T post))
   \<and> (ins_clean T ins_name = []
        \<or> (\<not> isspace T (hd (ins_clean T ins_name)) \<and> \<not> isspace T (last (ins_clean T ins_name))))
   \<and> set (ins_clean T ins_name) \<inter> {44, 47, 45} = {}
   \<and> (\<forall>cached. cache (ins_clean T ins_name) = Some cached \<longrightarrow>
         resolve_institution_id T inst_net ins_name cache
           = (if cached = MANUAL_REQUIRED then None else Some cached, cache, []))
   \<and> (ins_clean T second_name = ins_clean T ins_name \<longrightarrow>
         snd (snd (resolve_institution_id T inst_net' second_name
                     (fst (snd (resolve_institution_id T inst_net ins_name cache))))) = [])"
proof -
  have a: "ins_clean latin1 (Some (ustr ''MIT (Cambridge)''))
             = ins_clean latin1 (Some (ustr ''MIT, Cambridge''))"
    by (simp only: clean_mit_parenthesis clean_mit_comma)
  have kept: "ins_clean T (Some s) = strip T s" if "\<forall>x\<in>set s. x \<notin> {40, 44, 47, 45}"
    using strip_qualifiers_plain [OF that] by (simp add: ins_clean_def)
  have sep: "ins_clean T (Some (pre @ c # line)) = strip T pre
         \<and> ins_clean T (Some (pre @ c # line @ 10 # below))
             = strip T (rev (dropWhile (isspace T) (rev pre)) @ strip_qualifiers T (10 # below))"
    if p: "\<forall>x\<in>set pre. x \<notin> {40, 44, 47, 45}" and c: "c \<in> {44, 47, 45}"
      and w: "\<not> isspace T c" and l: "10 \<notin> set line"
  proof -
    have nl: "\<forall>d\<in>set line. d \<noteq> 10" using l by blast
    have d1: "dropWhile (\<lambda>d. d \<noteq> 10) line = []" using nl by simp
    have d2: "dropWhile (\<lambda>d. d \<noteq> 10) (line @ 10 # below) = 10 # below"
      using nl by (simp add: dropWhile_append2)
    have m1: "alt_match (c # line) = Some []" using c d1 by auto
    have m2: "alt_match (c # line @ 10 # below) = Some (10 # below)" using c d2 by auto
    have "strip_qualifiers T (pre @ c # line)
            = rev (dropWhile (isspace T) (rev pre)) @ strip_qualifiers T []"
      using strip_qualifiers_first [OF p w m1] .
    then have one: "ins_clean T (Some (pre @ c # line)) = strip T pre"
      by (simp add: ins_clean_def strip_qualifiers_def strip_rtrim)
    have "strip_qualifiers T (pre @ c # line @ 10 # below)
            = rev (dropWhile (isspace T) (rev pre)) @ strip_qualifiers T (10 # below)"
      using strip_qualifiers_first [OF p w m2] .
    then have two: "ins_clean T (Some (pre @ c # line @ 10 # below))
             = strip T (rev (dropWhile (isspace T) (rev pre)) @ strip_qualifiers T (10 # below))"
      by (simp add: ins_clean_def)
    show ?thesis using one two by (rule conjI)
  qed
  have par: "ins_clean T (Some (pre @ 40 # inner @ 41 # post))
           = strip T (rev (dropWhile (isspace T) (rev pre)) @ strip_qualifiers T post)"
    if p: "\<forall>x\<in>set pre. x \<notin> {40, 44, 47, 45}" and w: "\<not> isspace T 40"
      and i: "41 \<notin> set inner" "10 \<notin> set inner"
  proof -
    have "alt_match (40 # inner @ 41 # post) = Some post"
      using paren_close_inner [OF i] by simp
    from strip_qualifiers_first [OF p w this] show ?thesis by (simp add: ins_clean_def)
  qed
  have trimmed: "ins_clean T ins_name = []
        \<or> (\<not> isspace T (hd (ins_clean T ins_name)) \<and> \<not> isspace T (last (ins_clean T ins_name)))"
    unfolding ins_clean_def by (rule strip_ends)
  have b: "set (ins_clean T ins_name) \<inter> {44, 47, 45} = {}"
    using ins_clean_no_separator [of _ T ins_name] by auto
  have c: "snd (snd (resolve_institution_id T inst_net' second_name
                     (fst (snd (resolve_institution_id T inst_net ins_name cache))))) = []"
    if "ins_clean T second_name = ins_clean T ins_name"
  proof -
    have "ins_clean T second_name
            \<in> dom (fst (snd (resolve_institution_id T inst_net ins_name cache)))"
      using resolve_fills_key [of T ins_name inst_net cache] that by simp
    then obtain v where "fst (snd (resolve_institution_id T inst_net ins_name cache))
                      (ins_clean T second_name) = Some v"
      by blast
    then show ?thesis by (simp add: resolve_hit)
  qed
  have hit: "\<forall>cached. cache (ins_clean T ins_name) = Some cached \<longrightarrow>
         resolve_institution_id T inst_net ins_name cache
           = (if cached = MANUAL_REQUIRED then None else Some cached, cache, [])"
    by (simp add: resolve_hit)
  show ?thesis
    using a kept sep par trimmed b c hit by blast
qed

lemma clean_samples:
  "ins_clean latin1 (Some (ustr ''MIT (Cambridge) Lab'')) = ustr ''MIT Lab''"
  "ins_clean latin1 (Some (ustr '' MIT '')) = ustr ''MIT''"
  "ins_clean latin1 (Some name_mit_two_lines) = ustr ''MIT'' @ [10] @ ustr ''USA''"
  by (simp_all add: ins_clean_def strip_qualifiers_def name_mit_two_lines_def ev)

theorem resolver_cleaning_and_cache_hit_witness:
  "\<not> isspace latin1 44 \<and> \<not> isspace latin1 40
   \<and> ins_clean latin1 (Some (ustr '' MIT '')) = strip latin1 (ustr '' MIT '')
   \<and> ins_clean latin1 (Some (ustr ''MIT'' @ 44 # ustr '' Cambridge'')) = strip latin1 (ustr ''MIT'')
   \<and> ins_clean latin1 (Some (ustr ''MIT '' @ 40 # ustr ''Cambridge'' @ 41 # ustr '' Lab''))
       = strip latin1 (rev (dropWhile (isspace latin1) (rev (ustr ''MIT '')))
                        @ strip_qualifiers latin1 (ustr '' Lab''))
   \<and> ins_clean latin1 (Some (ustr ''MIT (Cambridge) Lab'')) = ustr ''MIT Lab''
   \<and> ins_clean latin1 (Some (ustr ''MIT, Cambridge'')) = ustr ''MIT''
   \<and> [ustr ''MIT'' \<mapsto> ustr ''I63966007''] (ins_clean latin1 (Some (ustr ''MIT, Cambridge'')))
     = Some (ustr ''I63966007'')
   \<and> resolve_institution_id latin1 (\<lambda>_. Raises) (Some (ustr ''MIT, Cambridge''))
        [ustr ''MIT'' \<mapsto> ustr ''I63966007'']
       = (Some (ustr ''I63966007''), [ustr ''MIT'' \<mapsto> ustr ''I63966007''], [])
   \<and> resolve_institution_id latin1 (\<lambda>_. Raises) (Some (ustr ''MIT, Cambridge''))
        [ustr ''MIT'' \<mapsto> MANUAL_REQUIRED]
       = (None, [ustr ''MIT'' \<mapsto> MANUAL_REQUIRED], [])
   \<and> snd (snd (resolve_institution_id latin1 (\<lambda>_. Raises) (Some (ustr ''MIT, Cambridge''))
        (fst (snd (resolve_institution_id latin1
           (\<lambda>_. Status 200 \<lparr> inst_results = [ustr ''I63966007''] \<rparr>)
           (Some (ustr ''MIT (Cambridge)'')) Map.empty))))) = []"
proof -
  have neq: "ustr ''I63966007'' \<noteq> MANUAL_REQUIRED" by (simp add: MANUAL_REQUIRED_def ustr_def)
  have sp: "\<not> isspace latin1 44" "\<not> isspace latin1 40" by (simp_all add: latin1_simps cp_num)
  have plain: "\<forall>x\<in>set (ustr '' MIT ''). x \<notin> {40, 44, 47, 45}"
    "\<forall>x\<in>set (ustr ''MIT''). x \<notin> {40, 44, 47, 45}"
    "\<forall>x\<in>set (ustr ''MIT ''). x \<notin> {40, 44, 47, 45}"
    "10 \<notin> set (ustr '' Cambridge'')" "41 \<notin> set (ustr ''Cambridge'')" "10 \<notin> set (ustr ''Cambridge'')"
    by (simp_all add: ustr_def)
  note t1 = resolver_cleaning_and_cache_hit [where T = latin1 and s = "ustr '' MIT ''"
      and pre = "ustr ''MIT''" and c = 44 and line = "ustr '' Cambridge''" and below = "[]"
      and inner = "[]" and post = "[]"
      and cache = "[ustr ''MIT'' \<mapsto> ustr ''I63966007'']"
      and ins_name = "Some (ustr ''MIT, Cambridge'')" and inst_net = "\<lambda>_. Raises"
      and second_name = "Some (ustr ''MIT, Cambridge'')" and inst_net' = "\<lambda>_. Raises"]
  note t2 = resolver_cleaning_and_cache_hit [where T = latin1 and s = "[]"
      and pre = "ustr ''MIT ''" and c = 44 and line = "[]" and below = "[]"
      and inner = "ustr ''Cambridge''" and post = "ustr '' Lab''"
      and cache = "[ustr ''MIT'' \<mapsto> MANUAL_REQUIRED]"
      and ins_name = "Some (ustr ''MIT, Cambridge'')" and inst_net = "\<lambda>_. Raises"
      and second_name = "Some (ustr ''MIT, Cambridge'')" and inst_net' = "\<lambda>_. Raises"]
  note t3 = resolver_cleaning_and_cache_hit [where T = latin1 and s = "[]"
      and pre = "[]" and c = 44 and line = "[]" and below = "[]" and inner = "[]" and post = "[]"
      and cache = Map.empty and ins_name = "Some (ustr ''MIT (Cambridge)'')"
      and inst_net = "\<lambda>_. Status 200 \<lparr> inst_results = [ustr ''I63966007''] \<rparr>"
      and second_name = "Some (ustr ''MIT, Cambridge'')" and inst_net' = "\<lambda>_. Raises"]
  have k: "ins_clean latin1 (Some (ustr '' MIT '')) = strip latin1 (ustr '' MIT '')"
    by (rule mp [OF t1 [THEN conjunct2, THEN conjunct1] plain(1)])
  have "ins_clean latin1 (Some (ustr ''MIT'' @ 44 # ustr '' Cambridge'')) = strip latin1 (ustr ''MIT'')
        \<and> ins_clean latin1 (Some (ustr ''MIT'' @ 44 # ustr '' Cambridge'' @ 10 # []))
            = strip latin1 (rev (dropWhile (isspace latin1) (rev (ustr ''MIT'')))
                             @ strip_qualifiers latin1 (10 # []))"
  proof (rule mp [OF t1 [THEN conjunct2, THEN conjunct2, THEN conjunct1]])
    show "(\<forall>x\<in>set (ustr ''MIT''). x \<notin> {40, 44, 47, 45}) \<and> 44 \<in> {44, 47, 45}
            \<and> \<not> isspace latin1 44 \<and> 10 \<notin> set (ustr '' Cambridge'')"
      using plain(2,4) sp(1) by simp
  qed
  then have s: "ins_clean latin1 (Some (ustr ''MIT'' @ 44 # ustr '' Cambridge''))
                  = strip latin1 (ustr ''MIT'')"
    by (rule conjunct1)
  have p: "ins_clean latin1 (Some (ustr ''MIT '' @ 40 # ustr ''Cambridge'' @ 41 # ustr '' Lab''))
       = strip latin1 (rev (dropWhile (isspace latin1) (rev (ustr ''MIT '')))
                        @ strip_qualifiers latin1 (ustr '' Lab''))"
  proof (rule mp [OF t2 [THEN conjunct2, THEN conjunct2, THEN conjunct2, THEN conjunct1]])
    show "(\<forall>x\<in>set (ustr ''MIT ''). x \<notin> {40, 44, 47, 45}) \<and> \<not> isspace latin1 40
            \<and> 41 \<notin> set (ustr ''Cambridge'') \<and> 10 \<notin> set (ustr ''Cambridge'')"
      using plain(3,5,6) sp(2) by simp
  qed
  have in_cache: "[ustr ''MIT'' \<mapsto> ustr ''I63966007''] (ins_clean latin1 (Some (ustr ''MIT, Cambridge'')))
     = Some (ustr ''I63966007'')"
    by (simp add: clean_mit_comma)
  have h1: "resolve_institution_id latin1 (\<lambda>_. Raises) (Some (ustr ''MIT, Cambridge''))
        [ustr ''MIT'' \<mapsto> ustr ''I63966007'']
       = (Some (ustr ''I63966007''), [ustr ''MIT'' \<mapsto> ustr ''I63966007''], [])"
    using t1 [THEN conjunct2, THEN conjunct2, THEN conjunct2, THEN conjunct2, THEN conjunct2,
              THEN conjunct2, THEN conjunct1, THEN spec, THEN mp, OF in_cache] neq
    by simp
  have in_cache': "[ustr ''MIT'' \<mapsto> MANUAL_REQUIRED] (ins_clean latin1 (Some (ustr ''MIT, Cambridge'')))
     = Some MANUAL_REQUIRED"
    by (simp add: clean_mit_comma)
  have h2: "resolve_institution_id latin1 (\<lambda>_. Raises) (Some (ustr ''MIT, Cambridge''))
        [ustr ''MIT'' \<mapsto> MANUAL_REQUIRED]
       = (None, [ustr ''MIT'' \<mapsto> MANUAL_REQUIRED], [])"
    using t2 [THEN conjunct2, THEN conjunct2, THEN conjunct2, THEN conjunct2, THEN conjunct2,
              THEN conjunct2, THEN conjunct1, THEN spec, THEN mp, OF in_cache']
    by simp
  have same: "ins_clean latin1 (Some (ustr ''MIT, Cambridge''))
                = ins_clean latin1 (Some (ustr ''MIT (Cambridge)''))"
    by (simp only: clean_mit_parenthesis clean_mit_comma)
  have h3: "snd (snd (resolve_institution_id latin1 (\<lambda>_. Raises) (Some (ustr ''MIT, Cambridge''))
        (fst (snd (resolve_institution_id latin1
           (\<lambda>_. Status 200 \<lparr> inst_results = [ustr ''I63966007''] \<rparr>)
           (Some (ustr ''MIT (Cambridge)'')) Map.empty))))) = []"
    by (rule mp [OF t3 [THEN conjunct2, THEN conjunct2, THEN conjunct2, THEN conjunct2,
                        THEN conjunct2, THEN conjunct2, THEN conjunct2] same])
  show ?thesis
    using sp k s p clean_samples(1) clean_mit_comma in_cache h1 h2 h3
    by (intro conjI)
qed

theorem resolver_cleaning_next_line_counterexample:
  "ins_clean latin1 (Some (ustr ''MIT, Cambridge'' @ [10] @ ustr ''USA''))
     = ustr ''MIT'' @ [10] @ ustr ''USA''"
  using clean_samples(3) by (simp add: name_mit_two_lines_def)

section \<open>The composite scorer\<close>

lemma institution_match_no_tokens:
  "normalize_institution_name T institution = [] \<Longrightarrow> \<not> institution_match T institution aff"
  by (simp add: institution_match_def)

lemma check_affiliation_or_publisher_iff:
  "check_affiliation_or_publisher T item institution_name \<longleftrightarrow>
     (\<exists>au\<in>set (author item). \<exists>aff\<in>set (affiliation au). institution_match T institution_name aff)
     \<or> institution_match T institution_name (publisher item)"
  by (auto simp: check_affiliation_or_publisher_def list_ex_iff)

lemma check_created_year_in_range_iff:
  "check_created_year_in_range item y d \<longleftrightarrow>
     (\<exists>year. get_created_year item = Some year \<and> y - d \<le> year \<and> year \<le> y + d)"
  by (auto simp: check_created_year_in_range_def split: option.splits)

lemma perfect_match_iff:
  "perfect_match T item full_name \<longleftrightarrow>
     (\<exists>au\<in>set (author item). set (tokenize_name_fields T [full_name])
                                \<subseteq> set (tokenize_name_fields T [given au, family au]))"
  by (simp add: perfect_match_def list_ex_iff)

text \<open>
  C3. The score is -999 when no author of the document has given+family tokens that
  contain every token of the target name, whatever the affiliation and year signals
  are; otherwise it is 1, plus 1 if an author affiliation or the publisher matches the
  institution, plus 1 if the creation year is within 5 years of the reference year
  (bounds included). It is always one of -999, 1, 2, 3.
\<close>

theorem composite_score_value:
  "compute_similarity_score T item full_name institution_name reference_year =
     (if \<exists>au\<in>set (author item). set (tokenize_name_fields T [full_name])
                                  \<subseteq> set (tokenize_name_fields T [given au, family au])
      then 1
           + (if (\<exists>au\<in>set (author item). \<exists>aff\<in>set (affiliation au).
                     institution_match T institution_name aff)
                 \<or> institution_match T institution_name (publisher item) then 1 else 0)
           + (if \<exists>year. get_created_year item = Some year
                         \<and> reference_year - 5 \<le> year \<and> year \<le> reference_year + 5
              then 1 else 0)
      else - 999)
   \<and> compute_similarity_score T item full_name institution_name reference_year
       \<in> {- 999, 1, 2, 3}"
proof -
  have core: "compute_similarity_score T item full_name institution_name reference_year =
     (if perfect_match T item full_name
      then 1 + (if check_affiliation_or_publisher T item institution_name then 1 else 0)
             + (if check_created_year_in_range item reference_year 5 then 1 else 0)
      else - 999)"
    by (simp add: compute_similarity_score_def Let_def)
  have range: "compute_similarity_score T item full_name institution_name reference_year
                 \<in> {- 999, 1, 2, 3}"
    unfolding core by simp
  show ?thesis
    using core range
    unfolding perfect_match_iff check_affiliation_or_publisher_iff check_created_year_in_range_iff
    by (rule conjI)
qed

lemma tok_ana_ruiz:
  "tokenize_name_fields latin1 [ustr ''Ana Ruiz''] = map ustr [''ana'', ''ruiz'']"
  by (simp add: tokenize_name_fields_def ev)

lemma tok_ana_maria_ruiz:
  "tokenize_name_fields latin1 [ustr ''Ana Maria'', ustr ''Ruiz'']
     = map ustr [''ana'', ''maria'', ''ruiz'']"
  by (simp add: tokenize_name_fields_def ev)

lemma tok_luis_ruiz:
  "tokenize_name_fields latin1 [ustr ''Luis'', ustr ''Ruiz''] = map ustr [''luis'', ''ruiz'']"
  by (simp add: tokenize_name_fields_def ev)

lemma inst_zaragoza:
  "normalize_institution_name latin1 (ustr ''Universidad de Zaragoza'')
     = map ustr [''de'', ''zaragoza'']"
  by (simp add: normalize_institution_name_def COMMON_INSTITUTION_WORDS_def ev)

lemma inst_elsevier:
  "normalize_institution_name latin1 (ustr ''Elsevier'') = map ustr [''elsevier'']"
  by (simp add: normalize_institution_name_def COMMON_INSTITUTION_WORDS_def ev)

lemma inst_university: "normalize_institution_name latin1 (ustr ''University'') = []"
  by (simp add: normalize_institution_name_def COMMON_INSTITUTION_WORDS_def ev)

lemma inst_instituto: "normalize_institution_name latin1 (ustr ''Instituto'') = []"
  by (simp add: normalize_institution_name_def COMMON_INSTITUTION_WORDS_def ev)

lemma inst_empty: "normalize_institution_name latin1 [] = []"
  by (simp add: normalize_institution_name_def COMMON_INSTITUTION_WORDS_def ev)

lemma ustr_eq_iff: "ustr a = ustr b \<longleftrightarrow> a = b"
  by (simp add: ustr_def inj_map_eq_map inj_on_def)

lemma match_zaragoza:
  "institution_match latin1 (ustr ''Universidad de Zaragoza'') (ustr ''Universidad de Zaragoza'')"
  "\<not> institution_match latin1 (ustr ''Universidad de Zaragoza'') (ustr ''Elsevier'')"
  unfolding institution_match_def inst_zaragoza inst_elsevier
  by (simp_all add: ustr_eq_iff)

lemma sample_tokens_subset:
  "set (tokenize_name_fields latin1 [ustr ''Ana Ruiz''])
     \<subset> set (tokenize_name_fields latin1 [ustr ''Ana Maria'', ustr ''Ruiz''])"
  "\<not> set (tokenize_name_fields latin1 [ustr ''Ana Ruiz''])
       \<subseteq> set (tokenize_name_fields latin1 [ustr ''Luis'', ustr ''Ruiz''])"
proof -
  have "ustr ''maria'' \<notin> set (map ustr [''ana'', ''ruiz''])"
    by (simp add: ustr_eq_iff)
  moreover have "ustr ''maria'' \<in> set (map ustr [''ana'', ''maria'', ''ruiz''])"
    by simp
  moreover have "set (map ustr [''ana'', ''ruiz'']) \<subseteq> set (map ustr [''ana'', ''maria'', ''ruiz''])"
    by auto
  ultimately show "set (tokenize_name_fields latin1 [ustr ''Ana Ruiz''])
     \<subset> set (tokenize_name_fields latin1 [ustr ''Ana Maria'', ustr ''Ruiz''])"
    unfolding tok_ana_ruiz tok_ana_maria_ruiz by blast
  show "\<not> set (tokenize_name_fields latin1 [ustr ''Ana Ruiz''])
       \<subseteq> set (tokenize_name_fields latin1 [ustr ''Luis'', ustr ''Ruiz''])"
    unfolding tok_ana_ruiz tok_luis_ruiz by (simp add: ustr_eq_iff)
qed

lemma sample_scores:
  "compute_similarity_score latin1 item_superset_both (ustr ''Ana Ruiz'')
     (ustr ''Universidad de Zaragoza'') 2015 = 3"
  "compute_similarity_score latin1 item_superset_none (ustr ''Ana Ruiz'')
     (ustr ''Universidad de Zaragoza'') 2015 = 1"
  "compute_similarity_score latin1 item_no_subset (ustr ''Ana Ruiz'')
     (ustr ''Universidad de Zaragoza'') 2015 = - 999"
  using sample_tokens_subset match_zaragoza
  by (simp_all add: compute_similarity_score_def perfect_match_def
        check_affiliation_or_publisher_def check_created_year_in_range_def get_created_year_def
        item_superset_both_def item_superset_none_def item_no_subset_def psubset_eq)

theorem composite_score_value_witness:
  "compute_similarity_score latin1 item_superset_both (ustr ''Ana Ruiz'')
     (ustr ''Universidad de Zaragoza'') 2015 = 3
   \<and> set (tokenize_name_fields latin1 [ustr ''Ana Ruiz''])
       \<subset> set (tokenize_name_fields latin1 [ustr ''Ana Maria'', ustr ''Ruiz''])
   \<and> compute_similarity_score latin1 item_superset_none (ustr ''Ana Ruiz'')
       (ustr ''Universidad de Zaragoza'') 2015 = 1
   \<and> compute_similarity_score latin1 item_no_subset (ustr ''Ana Ruiz'')
       (ustr ''Universidad de Zaragoza'') 2015 = - 999"
proof -
  have both: "\<exists>au\<in>set (author item_superset_both).
      set (tokenize_name_fields latin1 [ustr ''Ana Ruiz''])
        \<subseteq> set (tokenize_name_fields latin1 [given au, family au])"
    using sample_tokens_subset(1) by (simp add: item_superset_both_def psubset_eq)
  have aff: "(\<exists>au\<in>set (author item_superset_both). \<exists>aff\<in>set (affiliation au).
                 institution_match latin1 (ustr ''Universidad de Zaragoza'') aff)
             \<or> institution_match latin1 (ustr ''Universidad de Zaragoza'')
                  (publisher item_superset_both)"
    using match_zaragoza(1) by (simp add: item_superset_both_def)
  have yr: "\<exists>year. get_created_year item_superset_both = Some year
                   \<and> 2015 - 5 \<le> year \<and> year \<le> 2015 + 5"
    by (simp add: get_created_year_def item_superset_both_def)
  have three: "compute_similarity_score latin1 item_superset_both (ustr ''Ana Ruiz'')
                 (ustr ''Universidad de Zaragoza'') 2015 = 3"
    using composite_score_value [of latin1 item_superset_both "ustr ''Ana Ruiz''"
            "ustr ''Universidad de Zaragoza''" 2015]
    by (simp only: both aff yr if_True)
  show ?thesis using three sample_tokens_subset(1) sample_scores(2,3) by simp
qed

text \<open>
  C10. When the institution name of the Person normalizes to an empty token list,
  \<open>institution_match\<close> is false for every affiliation string, the affiliation/publisher
  check is false for every document, and the composite score is -999, or 1 plus the
  year bonus: never 3. The empty name and the names \<open>University\<close> and \<open>Instituto\<close>
  normalize to the empty list.
\<close>

theorem no_bonus_for_generic_institution:
  assumes "normalize_institution_name T institution_name = []"
  shows "\<not> institution_match T institution_name aff
         \<and> \<not> check_affiliation_or_publisher T item institution_name
         \<and> compute_similarity_score T item full_name institution_name reference_year
             = (if perfect_match T item full_name
                then (if check_created_year_in_range item reference_year 5 then 2 else 1)
                else - 999)"
  using assms
  by (simp add: institution_match_no_tokens check_affiliation_or_publisher_iff
        compute_similarity_score_def Let_def)

theorem no_bonus_for_generic_institution_witness:
  "normalize_institution_name latin1 (ustr ''University'') = []
   \<and> normalize_institution_name latin1 (ustr ''Instituto'') = []
   \<and> normalize_institution_name latin1 [] = []
   \<and> \<not> institution_match latin1 (ustr ''University'') (ustr ''University of Michigan'')
   \<and> \<not> check_affiliation_or_publisher latin1 item_superset_both (ustr ''Instituto'')
   \<and> compute_similarity_score latin1 item_superset_both (ustr ''Ana Ruiz'') (ustr ''University'') 2015
       = 2"
proof -
  have pm: "perfect_match latin1 item_superset_both (ustr ''Ana Ruiz'')"
    unfolding perfect_match_iff item_superset_both_def
    by (simp add: tok_ana_ruiz tok_ana_maria_ruiz)
  have yr: "check_created_year_in_range item_superset_both 2015 5"
    by (simp add: check_created_year_in_range_def get_created_year_def item_superset_both_def)
  show ?thesis
    using pm yr inst_university inst_instituto inst_empty
      no_bonus_for_generic_institution [OF inst_university, of "ustr ''University of Michigan''"
        item_superset_both "ustr ''Ana Ruiz''" 2015]
      no_bonus_for_generic_institution [OF inst_instituto, of "ustr ''University of Michigan''"
        item_superset_both "ustr ''Ana Ruiz''" 2015]
    by simp
qed

section \<open>Selection of the best document\<close>

lemma hd_insort_key:
  "hd (insort_key f x ys) = (if ys = [] \<or> f x \<le> f (hd ys) then x else hd ys)"
  by (cases ys) auto

lemma sort_key_eq_Nil_iff: "sort_key f xs = [] \<longleftrightarrow> xs = []"
  by (metis length_sort list.size(3) length_0_conv)

text \<open>The head of a stable sort is the first element whose key is minimal.\<close>

lemma hd_sort_key_first_min:
  "xs \<noteq> [] \<Longrightarrow>
     \<exists>pre b post. xs = pre @ b # post \<and> hd (sort_key f xs) = b
        \<and> (\<forall>x\<in>set pre. f b < f x) \<and> (\<forall>x\<in>set post. f b \<le> f x)"
proof (induction xs)
  case Nil
  then show ?case by simp
next
  case (Cons x xs)
  show ?case
  proof (cases "xs = []")
    case True
    then show ?thesis by (intro exI [of _ "[]"] exI [of _ x]) simp
  next
    case False
    from Cons.IH [OF False] obtain pre b post where
      d: "xs = pre @ b # post" and h: "hd (sort_key f xs) = b"
      and p: "\<forall>y\<in>set pre. f b < f y" and q: "\<forall>y\<in>set post. f b \<le> f y"
      by blast
    have ne: "sort_key f xs \<noteq> []" using False by (simp add: sort_key_eq_Nil_iff)
    show ?thesis
    proof (cases "f x \<le> f b")
      case True
      then have "hd (sort_key f (x # xs)) = x" using h ne by (simp add: hd_insort_key)
      moreover have "\<forall>y\<in>set xs. f x \<le> f y" using True p q d by fastforce
      ultimately show ?thesis by (intro exI [of _ "[]"] exI [of _ x] exI [of _ xs]) simp
    next
      case False
      then have "hd (sort_key f (x # xs)) = b" using h ne by (simp add: hd_insort_key)
      moreover have "\<forall>y\<in>set (x # pre). f b < f y" using False p by auto
      ultimately show ?thesis
        using d q by (intro exI [of _ "x # pre"] exI [of _ b] exI [of _ post]) simp
    qed
  qed
qed

lemma sorted_key_hd_le:
  "sorted (map f ys) \<Longrightarrow> y \<in> set ys \<Longrightarrow> f (hd ys) \<le> f y"
  by (cases ys) auto

text \<open>Filtering a list sorted by descending score for the scores from 2 upwards.\<close>

lemma filter_sorted_desc:
  fixes ys :: "(int \<times> 'a) list"
  assumes "sorted (map (\<lambda>x. - fst x) ys)"
  shows "filter (\<lambda>x. fst x \<ge> 2) ys
         = (if ys \<noteq> [] \<and> fst (hd ys) \<ge> 2 then hd ys # filter (\<lambda>x. fst x \<ge> 2) (tl ys) else [])"
proof (cases "ys \<noteq> [] \<and> fst (hd ys) \<ge> 2")
  case True
  then show ?thesis by (cases ys) auto
next
  case False
  have "\<forall>y\<in>set ys. \<not> fst y \<ge> 2"
  proof
    fix y assume y: "y \<in> set ys"
    then have "ys \<noteq> []" by auto
    with False have "fst (hd ys) < 2" by simp
    moreover have "- fst (hd ys) \<le> - fst y" using sorted_key_hd_le [OF assms y] .
    ultimately show "\<not> fst y \<ge> 2" by simp
  qed
  then have "filter (\<lambda>x. fst x \<ge> 2) ys = []" by (simp add: filter_empty_conv)
  with False show ?thesis by auto
qed

lemma map_filter_decomp:
  "map g (filter P xs) = ys @ z # zs \<Longrightarrow>
     \<exists>as a bs. xs = as @ a # bs \<and> P a \<and> g a = z
        \<and> map g (filter P as) = ys \<and> map g (filter P bs) = zs"
proof (induction xs arbitrary: ys)
  case Nil
  then show ?case by simp
next
  case (Cons x xs)
  show ?case
  proof (cases "P x")
    case False
    with Cons.prems have "map g (filter P xs) = ys @ z # zs" by simp
    from Cons.IH [OF this] obtain as a bs where
      "xs = as @ a # bs" "P a" "g a = z" "map g (filter P as) = ys" "map g (filter P bs) = zs"
      by blast
    then show ?thesis using False
      by (intro exI [of _ "x # as"] exI [of _ a] exI [of _ bs]) simp
  next
    case True
    show ?thesis
    proof (cases ys)
      case Nil
      with True Cons.prems show ?thesis
        by (intro exI [of _ "[]"] exI [of _ x] exI [of _ xs]) simp
    next
      case (Cons y ys')
      with True Cons.prems have "map g (filter P xs) = ys' @ z # zs" and gy: "g x = y" by simp_all
      from Cons.IH [OF this(1)] obtain as a bs where
        "xs = as @ a # bs" "P a" "g a = z" "map g (filter P as) = ys'" "map g (filter P bs) = zs"
        by blast
      then show ?thesis using True gy Cons
        by (intro exI [of _ "x # as"] exI [of _ a] exI [of _ bs]) simp
    qed
  qed
qed

lemma scored_items_eq:
  "concat (map (\<lambda>item. let sc = score item in if sc > 0 then [(sc, item)] else []) xs)
     = map (\<lambda>item. (score item, item)) (filter (\<lambda>item. score item > (0::int)) xs)"
  by (induction xs) (auto simp: Let_def)

text \<open>
  The head of the documents that reach 2, after the stable descending sort: the first
  document of maximal score, when some document reaches 2.
\<close>

lemma best_scored_head:
  fixes score :: "'a \<Rightarrow> int"
  defines "scored xs \<equiv> sort_key (\<lambda>x. - fst x)
             (map (\<lambda>item. (score item, item)) (filter (\<lambda>item. score item > 0) xs))"
  shows "(\<forall>x\<in>set xs. score x < 2) \<Longrightarrow> filter (\<lambda>x. fst x \<ge> 2) (scored xs) = []"
    and "(\<exists>x\<in>set xs. score x \<ge> 2) \<Longrightarrow>
          \<exists>pre b post rest. xs = pre @ b # post
             \<and> (\<forall>x\<in>set pre. score x < score b) \<and> (\<forall>x\<in>set post. score x \<le> score b)
             \<and> score b \<ge> 2
             \<and> filter (\<lambda>x. fst x \<ge> 2) (scored xs) = (score b, b) # rest"
proof -
  let ?g = "\<lambda>item. (score item, item)"
  let ?P = "\<lambda>item. score item > 0"
  let ?l = "map ?g (filter ?P xs)"
  have set_scored: "set (scored xs) = set ?l" by (simp add: scored_def)
  have srt: "sorted (map (\<lambda>x. - fst x) (scored xs))" by (simp add: scored_def)
  {
    assume "\<forall>x\<in>set xs. score x < 2"
    then have "\<forall>y\<in>set (scored xs). \<not> fst y \<ge> 2" unfolding set_scored by auto
    then show "filter (\<lambda>x. fst x \<ge> 2) (scored xs) = []" by (simp add: filter_empty_conv)
  }
  {
    assume ex: "\<exists>x\<in>set xs. score x \<ge> 2"
    then obtain m where m: "m \<in> set xs" "score m \<ge> 2" by blast
    then have "?g m \<in> set ?l" by auto
    then have ne: "?l \<noteq> []" by (metis empty_iff empty_set)
    from hd_sort_key_first_min [OF ne, of "\<lambda>x. - fst x"] obtain pre' z post' where
      d: "?l = pre' @ z # post'" and h: "hd (scored xs) = z"
      and p: "\<forall>x\<in>set pre'. - fst z < - fst x" and q: "\<forall>x\<in>set post'. - fst z \<le> - fst x"
      unfolding scored_def by blast
    from map_filter_decomp [OF d] obtain pre b post where
      x: "xs = pre @ b # post" and pb: "?P b" and gb: "?g b = z"
      and mp: "map ?g (filter ?P pre) = pre'" and mq: "map ?g (filter ?P post) = post'"
      by blast
    have zmax: "\<forall>y\<in>set ?l. fst y \<le> fst z" using d p q by fastforce
    have "fst (?g m) \<le> fst z" using zmax \<open>?g m \<in> set ?l\<close> by blast
    then have b2: "score b \<ge> 2" using m gb by auto
    have pre_lt: "\<forall>x\<in>set pre. score x < score b"
    proof
      fix y assume y: "y \<in> set pre"
      show "score y < score b"
      proof (cases "?P y")
        case True
        then have "?g y \<in> set pre'" using y mp by force
        then show ?thesis using p gb by fastforce
      next
        case False
        then show ?thesis using b2 by simp
      qed
    qed
    have post_le: "\<forall>x\<in>set post. score x \<le> score b"
    proof
      fix y assume y: "y \<in> set post"
      show "score y \<le> score b"
      proof (cases "?P y")
        case True
        then have "?g y \<in> set post'" using y mq by force
        then show ?thesis using q gb by fastforce
      next
        case False
        then show ?thesis using b2 by simp
      qed
    qed
    have sne: "scored xs \<noteq> []" using ne by (simp add: scored_def sort_key_eq_Nil_iff)
    have "hd (scored xs) = (score b, b)" using h gb by simp
    then have "fst (hd (scored xs)) \<ge> 2" using b2 by simp
    then have "filter (\<lambda>x. fst x \<ge> 2) (scored xs)
                 = hd (scored xs) # filter (\<lambda>x. fst x \<ge> 2) (tl (scored xs))"
      using filter_sorted_desc [OF srt] sne by simp
    then have "filter (\<lambda>x. fst x \<ge> 2) (scored xs)
                 = (score b, b) # filter (\<lambda>x. fst x \<ge> 2) (tl (scored xs))"
      using h gb by simp
    then show "\<exists>pre b post rest. xs = pre @ b # post
             \<and> (\<forall>x\<in>set pre. score x < score b) \<and> (\<forall>x\<in>set post. score x \<le> score b)
             \<and> score b \<ge> 2
             \<and> filter (\<lambda>x. fst x \<ge> 2) (scored xs) = (score b, b) # rest"
      using x pre_lt post_le b2 by blast
  }
qed

lemma exact_fallback_find:
  "exact_fallback (filter P xs)
     = (case find P xs of
          None \<Rightarrow> None
        | Some item \<Rightarrow>
            (case DOI item of
               None \<Rightarrow> None
             | Some doi \<Rightarrow> if doi \<noteq> [] then Some (doi_url doi, 1) else None))"
  by (induction xs) (auto simp: exact_fallback_def)

text \<open>
  What \<open>search_doi\<close> computes. Let the documents be the result set in its own order,
  scored against the search name. If some document scores at least 2, the selected
  document is the first one of maximal score (every earlier document scores strictly
  less, every later one at most as much), and its DOI is returned with its score when
  it has a non-empty DOI. If no document scores at least 2, the answer is that of the
  exact-match branch: the first document in original order with an author whose token
  set equals the target's, with score 1, when it has a non-empty DOI, and null
  otherwise. The selected document of the first case having no DOI, the code goes on
  to the exact-match branch as well.
\<close>

lemma search_doi_selection:
  fixes T works_query name_query given_name reference_year institution_name
  defines "full_name \<equiv> search_full_name T name_query given_name"
  defines "docs \<equiv> works_query (last_name_query T name_query)"
  defines "score \<equiv> \<lambda>item. compute_similarity_score T item full_name institution_name
                            reference_year"
  defines "answer \<equiv> search_doi T works_query name_query given_name reference_year
                     institution_name"
  defines "fallback \<equiv>
             (case find (\<lambda>item. exact_token_match T item full_name) docs of
                None \<Rightarrow> None
              | Some item \<Rightarrow>
                  (case DOI item of
                     None \<Rightarrow> None
                   | Some doi \<Rightarrow> if doi \<noteq> [] then Some (doi_url doi, 1) else None))"
  shows "((\<exists>item\<in>set docs. score item \<ge> 2) \<longrightarrow>
            (\<exists>pre best post. docs = pre @ best # post
               \<and> (\<forall>x\<in>set pre. score x < score best) \<and> (\<forall>x\<in>set post. score x \<le> score best)
               \<and> answer = (case DOI best of
                              None \<Rightarrow> fallback
                            | Some doi \<Rightarrow> if doi \<noteq> [] then Some (doi_url doi, score best)
                                         else fallback)))
         \<and> ((\<forall>item\<in>set docs. score item < 2) \<longrightarrow> answer = fallback)"
proof -
  let ?scored = "sort_key (\<lambda>x. - fst x)
                   (map (\<lambda>item. (score item, item)) (filter (\<lambda>item. score item > 0) docs))"
  have sc: "compute_similarity_score T item full_name institution_name reference_year
              = score item" for item
    by (simp add: score_def)
  have fb: "exact_fallback (filter (\<lambda>item. exact_token_match T item full_name) docs) = fallback"
    by (simp add: fallback_def exact_fallback_find)
  have ans: "answer =
     (case filter (\<lambda>x. fst x \<ge> 2) ?scored of
        [] \<Rightarrow> fallback
      | (best_score, best_item) # _ \<Rightarrow>
          (case DOI best_item of
             None \<Rightarrow> fallback
           | Some doi \<Rightarrow> if doi \<noteq> [] then Some (doi_url doi, best_score) else fallback))"
    unfolding answer_def search_doi_def full_name_def [symmetric] docs_def [symmetric]
    by (simp only: scored_items_eq) (simp only: Let_def sc fb)
  have low: "answer = fallback" if "\<forall>item\<in>set docs. score item < 2"
    using best_scored_head(1) [of docs score, OF that] unfolding ans by simp
  have high: "\<exists>pre best post. docs = pre @ best # post
               \<and> (\<forall>x\<in>set pre. score x < score best) \<and> (\<forall>x\<in>set post. score x \<le> score best)
               \<and> answer = (case DOI best of
                              None \<Rightarrow> fallback
                            | Some doi \<Rightarrow> if doi \<noteq> [] then Some (doi_url doi, score best)
                                         else fallback)"
    if "\<exists>item\<in>set docs. score item \<ge> 2"
  proof -
    from best_scored_head(2) [of docs score, OF that] obtain pre b post rest where
      d: "docs = pre @ b # post" and p: "\<forall>x\<in>set pre. score x < score b"
      and q: "\<forall>x\<in>set post. score x \<le> score b"
      and f: "filter (\<lambda>x. fst x \<ge> 2) ?scored = (score b, b) # rest"
      by blast
    have "answer = (case DOI b of
                      None \<Rightarrow> fallback
                    | Some doi \<Rightarrow> if doi \<noteq> [] then Some (doi_url doi, score b) else fallback)"
      unfolding ans f by simp
    with d p q show ?thesis by blast
  qed
  show ?thesis using low high by blast
qed
lemma parse_ana_ruiz:
  "parse_spanish_name latin1 (ustr ''Ana Ruiz'') = ([ustr ''ana''], Some (ustr ''ruiz''), None)"
  unfolding parse_spanish_name_def tokens_ana by (simp add: Let_def)

lemma query_ana_ruiz: "last_name_query latin1 (ustr ''Ana Ruiz'') = ustr ''ruiz''"
  by (simp add: last_name_query_def parse_ana_ruiz)

lemma full_name_ana_ruiz: "search_full_name latin1 (ustr ''Ana Ruiz'') (ustr ''Ana'') = ustr ''Ana ruiz''"
  unfolding search_full_name_def query_ana_ruiz by (simp add: ev)

lemma tok_ana_ruiz_query:
  "tokenize_name_fields latin1 [ustr ''Ana ruiz''] = map ustr [''ana'', ''ruiz'']"
  by (simp add: tokenize_name_fields_def ev)

lemma tok_ana_ruiz_fields:
  "tokenize_name_fields latin1 [ustr ''Ana'', ustr ''Ruiz''] = map ustr [''ana'', ''ruiz'']"
  by (simp add: tokenize_name_fields_def ev)

lemma sample_perfect:
  "perfect_match latin1 item_superset_both (ustr ''Ana ruiz'')"
  "perfect_match latin1 item_superset_none (ustr ''Ana ruiz'')"
  "perfect_match latin1 item_top_nodoi (ustr ''Ana ruiz'')"
  "perfect_match latin1 item_exact (ustr ''Ana ruiz'')"
  "\<not> perfect_match latin1 item_no_subset (ustr ''Ana ruiz'')"
  by (simp_all add: perfect_match_def item_superset_both_def item_superset_none_def
        item_top_nodoi_def item_exact_def item_no_subset_def
        tok_ana_ruiz_query tok_ana_maria_ruiz tok_ana_ruiz_fields tok_luis_ruiz ustr_eq_iff)

lemma sample_exact:
  "\<not> exact_token_match latin1 item_superset_both (ustr ''Ana ruiz'')"
  "\<not> exact_token_match latin1 item_superset_none (ustr ''Ana ruiz'')"
  "\<not> exact_token_match latin1 item_top_nodoi (ustr ''Ana ruiz'')"
  "exact_token_match latin1 item_exact (ustr ''Ana ruiz'')"
  "\<not> exact_token_match latin1 item_no_subset (ustr ''Ana ruiz'')"
  by (simp_all add: exact_token_match_def item_superset_both_def item_superset_none_def
        item_top_nodoi_def item_exact_def item_no_subset_def set_eq_subset
        tok_ana_ruiz_query tok_ana_maria_ruiz tok_ana_ruiz_fields tok_luis_ruiz ustr_eq_iff)

lemma sample_affiliation:
  "check_affiliation_or_publisher latin1 item_superset_both (ustr ''Universidad de Zaragoza'')"
  "\<not> check_affiliation_or_publisher latin1 item_superset_none (ustr ''Universidad de Zaragoza'')"
  "check_affiliation_or_publisher latin1 item_top_nodoi (ustr ''Universidad de Zaragoza'')"
  "\<not> check_affiliation_or_publisher latin1 item_exact (ustr ''Universidad de Zaragoza'')"
  using match_zaragoza
  by (simp_all add: check_affiliation_or_publisher_def item_superset_both_def
        item_superset_none_def item_top_nodoi_def item_exact_def)

lemma sample_year:
  "check_created_year_in_range item_superset_both 2015 5"
  "\<not> check_created_year_in_range item_superset_none 2015 5"
  "check_created_year_in_range item_top_nodoi 2015 5"
  "\<not> check_created_year_in_range item_exact 2015 5"
  by (simp_all add: check_created_year_in_range_def get_created_year_def item_superset_both_def
        item_superset_none_def item_top_nodoi_def item_exact_def)

lemma sample_query_scores:
  "compute_similarity_score latin1 item_superset_both (ustr ''Ana ruiz'')
     (ustr ''Universidad de Zaragoza'') 2015 = 3"
  "compute_similarity_score latin1 item_superset_none (ustr ''Ana ruiz'')
     (ustr ''Universidad de Zaragoza'') 2015 = 1"
  "compute_similarity_score latin1 item_top_nodoi (ustr ''Ana ruiz'')
     (ustr ''Universidad de Zaragoza'') 2015 = 3"
  "compute_similarity_score latin1 item_exact (ustr ''Ana ruiz'')
     (ustr ''Universidad de Zaragoza'') 2015 = 1"
  "compute_similarity_score latin1 item_no_subset (ustr ''Ana ruiz'')
     (ustr ''Universidad de Zaragoza'') 2015 = - 999"
  by (simp_all add: compute_similarity_score_def sample_perfect sample_affiliation sample_year)

lemma sample_doi:
  "DOI item_superset_both = Some (ustr ''10.1/a'')"
  "DOI item_superset_none = Some (ustr ''10.1/b'')"
  "DOI item_no_subset = Some (ustr ''10.1/c'')"
  "DOI item_top_nodoi = None"
  "DOI item_exact = Some (ustr ''10.1/e'')"
  by (simp_all add: item_superset_both_def item_superset_none_def item_top_nodoi_def
        item_exact_def item_no_subset_def)

lemma ustr_nonempty: "ustr (c # s) \<noteq> []"
  by (simp add: ustr_def)

lemma sample_items_differ:
  "item_superset_none \<noteq> item_superset_both"
  by (simp add: item_superset_both_def item_superset_none_def)

lemma search_doi_samples:
  "compute_similarity_score latin1 item_superset_both (ustr ''Ana ruiz'')
     (ustr ''Universidad de Zaragoza'') 2015 = 3
   \<and> compute_similarity_score latin1 item_superset_none (ustr ''Ana ruiz'')
       (ustr ''Universidad de Zaragoza'') 2015 = 1
   \<and> compute_similarity_score latin1 item_exact (ustr ''Ana ruiz'')
       (ustr ''Universidad de Zaragoza'') 2015 = 1
   \<and> search_doi latin1 (\<lambda>_. [item_superset_none, item_superset_both]) (ustr ''Ana Ruiz'')
        (ustr ''Ana'') 2015 (ustr ''Universidad de Zaragoza'') = Some (doi_url (ustr ''10.1/a''), 3)
   \<and> search_doi latin1 (\<lambda>_. [item_superset_none, item_exact]) (ustr ''Ana Ruiz'')
        (ustr ''Ana'') 2015 (ustr ''Universidad de Zaragoza'') = Some (doi_url (ustr ''10.1/e''), 1)
   \<and> search_doi latin1 (\<lambda>_. [item_no_subset]) (ustr ''Ana Ruiz'')
        (ustr ''Ana'') 2015 (ustr ''Universidad de Zaragoza'') = None"
proof -
  have high: "\<exists>item\<in>set [item_superset_none, item_superset_both].
       compute_similarity_score latin1 item (ustr ''Ana ruiz'') (ustr ''Universidad de Zaragoza'')
         2015 \<ge> 2"
    by (simp add: sample_query_scores)
  have low: "\<forall>item\<in>set [item_superset_none, item_exact].
       compute_similarity_score latin1 item (ustr ''Ana ruiz'') (ustr ''Universidad de Zaragoza'')
         2015 < 2"
    by (simp add: sample_query_scores)
  have low': "\<forall>item\<in>set [item_no_subset].
       compute_similarity_score latin1 item (ustr ''Ana ruiz'') (ustr ''Universidad de Zaragoza'')
         2015 < 2"
    by (simp add: sample_query_scores)
  have a: "search_doi latin1 (\<lambda>_. [item_superset_none, item_superset_both]) (ustr ''Ana Ruiz'')
        (ustr ''Ana'') 2015 (ustr ''Universidad de Zaragoza'') = Some (doi_url (ustr ''10.1/a''), 3)"
    using high
      search_doi_selection [where T = latin1
        and works_query = "\<lambda>_. [item_superset_none, item_superset_both]"
        and name_query = "ustr ''Ana Ruiz''" and given_name = "ustr ''Ana''"
        and reference_year = 2015 and institution_name = "ustr ''Universidad de Zaragoza''"]
    unfolding full_name_ana_ruiz
    by (auto simp: Cons_eq_append_conv sample_query_scores sample_doi ustr_nonempty)
  have b: "search_doi latin1 (\<lambda>_. [item_superset_none, item_exact]) (ustr ''Ana Ruiz'')
        (ustr ''Ana'') 2015 (ustr ''Universidad de Zaragoza'') = Some (doi_url (ustr ''10.1/e''), 1)"
    using low
      search_doi_selection [where T = latin1
        and works_query = "\<lambda>_. [item_superset_none, item_exact]"
        and name_query = "ustr ''Ana Ruiz''" and given_name = "ustr ''Ana''"
        and reference_year = 2015 and institution_name = "ustr ''Universidad de Zaragoza''"]
    unfolding full_name_ana_ruiz
    by (simp add: sample_exact sample_doi ustr_nonempty)
  have c: "search_doi latin1 (\<lambda>_. [item_no_subset]) (ustr ''Ana Ruiz'')
        (ustr ''Ana'') 2015 (ustr ''Universidad de Zaragoza'') = None"
    using low'
      search_doi_selection [where T = latin1
        and works_query = "\<lambda>_. [item_no_subset]"
        and name_query = "ustr ''Ana Ruiz''" and given_name = "ustr ''Ana''"
        and reference_year = 2015 and institution_name = "ustr ''Universidad de Zaragoza''"]
    unfolding full_name_ana_ruiz
    by (simp add: sample_exact)
  show ?thesis using a b c by (simp add: sample_query_scores)
qed

lemma search_doi_eval:
  "search_doi latin1 (\<lambda>_. [item_top_nodoi, item_exact]) (ustr ''Ana Ruiz'') (ustr ''Ana'') 2015
     (ustr ''Universidad de Zaragoza'') = Some (doi_url (ustr ''10.1/e''), 1)"
  unfolding search_doi_def full_name_ana_ruiz
  by (simp add: sample_query_scores sample_exact sample_doi exact_fallback_def ustr_nonempty)

text \<open>
  C4. The claim holds of every result set whose selected documents carry a DOI (see
  \<open>search_doi_selection\<close>), and fails on the result set made of a document that
  scores 3 and has no DOI followed by an exact-match document that scores 1: a
  document scores at least 2, yet the answer is the DOI of the document that scores 1,
  with score 1. The docstring of \<open>search_doi\<close> announces the highest-scoring DOI
  whenever a result scores at least 2 and the exact-match fallback only otherwise.
\<close>

theorem search_doi_top_document_without_doi:
  "compute_similarity_score latin1 item_top_nodoi
     (search_full_name latin1 (ustr ''Ana Ruiz'') (ustr ''Ana''))
     (ustr ''Universidad de Zaragoza'') 2015 = 3
   \<and> compute_similarity_score latin1 item_exact
       (search_full_name latin1 (ustr ''Ana Ruiz'') (ustr ''Ana''))
       (ustr ''Universidad de Zaragoza'') 2015 = 1
   \<and> search_doi latin1 (\<lambda>_. [item_top_nodoi, item_exact]) (ustr ''Ana Ruiz'') (ustr ''Ana'') 2015
       (ustr ''Universidad de Zaragoza'') = Some (doi_url (ustr ''10.1/e''), 1)"
  unfolding full_name_ana_ruiz
  by (simp add: sample_query_scores search_doi_eval)

section \<open>The tiered matcher\<close>

lemma advances_refl: "advances st st"
  by (simp add: advances_def)

lemma advances_trans: "advances a b \<Longrightarrow> advances b c \<Longrightarrow> advances a c"
  unfolding advances_def
proof (intro conjI allI)
  assume ab: "(\<forall>k. \<exists>ext. accepted (candidate_dict b) k = accepted (candidate_dict a) k @ ext)
     \<and> dom (reject_dict a) \<subseteq> dom (reject_dict b)
     \<and> ((\<forall>k. distinct (accepted_ids a k)) \<longrightarrow> (\<forall>k. distinct (accepted_ids b k)))"
    and bc: "(\<forall>k. \<exists>ext. accepted (candidate_dict c) k = accepted (candidate_dict b) k @ ext)
     \<and> dom (reject_dict b) \<subseteq> dom (reject_dict c)
     \<and> ((\<forall>k. distinct (accepted_ids b k)) \<longrightarrow> (\<forall>k. distinct (accepted_ids c k)))"
  show "\<exists>ext. accepted (candidate_dict c) k = accepted (candidate_dict a) k @ ext" for k
  proof -
    obtain e1 where "accepted (candidate_dict b) k = accepted (candidate_dict a) k @ e1"
      using ab by blast
    moreover obtain e2 where "accepted (candidate_dict c) k = accepted (candidate_dict b) k @ e2"
      using bc by blast
    ultimately have "accepted (candidate_dict c) k = accepted (candidate_dict a) k @ (e1 @ e2)"
      by simp
    then show ?thesis by blast
  qed
  show "dom (reject_dict a) \<subseteq> dom (reject_dict c)" using ab bc by blast
  show "(\<forall>k. distinct (accepted_ids a k)) \<longrightarrow> (\<forall>k. distinct (accepted_ids c k))"
    using ab bc by blast
qed

lemma advances_memo:
  "advances st (st\<lparr>reject_dict := (reject_dict st)(k \<mapsto> True)\<rparr>)"
  by (auto simp: advances_def accepted_ids_def)

lemma advances_cache: "advances st (st\<lparr>ins_cache := c\<rparr>)"
  by (simp add: advances_def accepted_ids_def)

lemma advances_new_key:
  "fs_id \<notin> dom (candidate_dict st) \<Longrightarrow>
     advances st (st\<lparr>candidate_dict := (candidate_dict st)(fs_id \<mapsto> [])\<rparr>)"
  by (auto simp: advances_def accepted_ids_def accepted_def split: option.splits)

lemma already_accepted_iff:
  "already_accepted cd fs_id i \<longleftrightarrow> i \<in> set (map ct_alex_id (accepted cd fs_id))"
  by (auto simp: already_accepted_def list_ex_iff)

lemma make_tuple_id: "ct_alex_id (make_tuple fs_id c n a) = cand_id c"
  by (simp add: make_tuple_def)

lemma gather_advances:
  assumes "fs_id \<in> dom (candidate_dict st)"
    and "\<not> already_accepted (candidate_dict st) fs_id (cand_id c)"
  shows "\<exists>st'. gather fs_id c st = Inr st' \<and> advances st st' \<and> fs_id \<in> dom (candidate_dict st')"
proof -
  from assms(1) obtain l where l: "candidate_dict st fs_id = Some l" by blast
  let ?t = "make_tuple fs_id c (display_name c) (display_name_alternatives c)"
  let ?st' = "st\<lparr>candidate_dict := (candidate_dict st)(fs_id \<mapsto> l @ [?t])\<rparr>"
  have g: "gather fs_id c st = Inr ?st'"
    using l by (simp add: gather_def gather_candidate_data_def)
  have new: "cand_id c \<notin> set (map ct_alex_id l)"
    using assms(2) l by (simp add: already_accepted_iff accepted_def)
  have acc: "accepted ((candidate_dict st)(fs_id \<mapsto> l @ [?t])) k
               = (if k = fs_id then accepted (candidate_dict st) k @ [?t]
                  else accepted (candidate_dict st) k)" for k
    using l by (simp add: accepted_def)
  have "advances st ?st'"
    unfolding advances_def
  proof (intro conjI allI impI)
    show "\<exists>ext. accepted (candidate_dict ?st') k = accepted (candidate_dict st) k @ ext" for k
      by (cases "k = fs_id") (simp_all add: acc)
    show "dom (reject_dict st) \<subseteq> dom (reject_dict ?st')" by simp
    show "distinct (accepted_ids ?st' k)" if "\<forall>k. distinct (accepted_ids st k)" for k
    proof (cases "k = fs_id")
      case True
      have "distinct (map ct_alex_id l)"
        using that l by (auto simp: accepted_ids_def accepted_def dest: spec [of _ fs_id])
      then show ?thesis using True new l
        by (simp add: accepted_ids_def acc accepted_def make_tuple_id)
    next
      case False
      then show ?thesis using that by (simp add: accepted_ids_def acc)
    qed
  qed
  then show ?thesis using g by simp
qed

text \<open>A loop keeps what each round of its body keeps.\<close>

lemma for_each_advances:
  assumes body: "\<And>x s. P s \<Longrightarrow> \<exists>s'. body x s = Inr s' \<and> advances s s' \<and> P s'"
    and "P st"
  shows "\<exists>st'. for_each body xs st = Inr st' \<and> advances st st' \<and> P st'"
  using assms(2)
proof (induction xs arbitrary: st)
  case Nil
  then show ?case by (simp add: advances_refl)
next
  case (Cons x xs)
  from body [OF Cons.prems] obtain s1 where
    s1: "body x st = Inr s1" "advances st s1" "P s1" by blast
  from Cons.IH [OF s1(3)] obtain s2 where
    s2: "for_each body xs s1 = Inr s2" "advances s1 s2" "P s2" by blast
  show ?case using s1 s2 advances_trans by auto
qed

lemma tier1_body_advances:
  assumes "fs_id \<in> dom (candidate_dict st)"
  shows "\<exists>st'. tier1_body T fs_id full_name c st = Inr st' \<and> advances st st'
           \<and> fs_id \<in> dom (candidate_dict st')"
  using assms gather_advances [of fs_id st c] advances_refl [of st]
  by (auto simp: tier1_body_def Let_def)

lemma bag_of_words_reject_total:
  assumes "[] \<notin> set ft"
  shows "\<exists>b. bag_of_words_reject ct ft cn fn memo i = Inr b"
  using token_checks_iff [OF assms, of 0 ct] by (auto simp: bag_of_words_reject_def)

lemma gate_cases:
  assumes "[] \<notin> set ft"
  shows "gate ct ft fn c st = Inr (False, st)
         \<or> gate ct ft fn c st
             = Inr (True, st\<lparr>reject_dict := (reject_dict st)(cand_id c \<mapsto> True)\<rparr>)"
proof -
  obtain b where "bag_of_words_reject ct ft (display_name c) fn (reject_dict st) (cand_id c) = Inr b"
    using bag_of_words_reject_total [OF assms] by blast
  then show ?thesis by (cases b) (simp_all add: gate_def)
qed

lemma tier2_body_advances:
  assumes "fs_id \<in> dom (candidate_dict st)"
  shows "\<exists>st'. tier2_body T ins_id fs_id full_name c st = Inr st' \<and> advances st st'
           \<and> fs_id \<in> dom (candidate_dict st')"
proof (cases "already_accepted (candidate_dict st) fs_id (cand_id c)")
  case True
  then show ?thesis using assms by (simp add: tier2_body_def advances_refl)
next
  case False
  let ?ft = "split T (normalize_name T full_name)"
  let ?ct = "split T (normalize_name T (display_name c))"
  from gate_cases [of ?ft ?ct full_name c st, OF split_nonempty]
  show ?thesis
  proof
    assume g: "gate ?ct ?ft full_name c st = Inr (False, st)"
    show ?thesis
      using False g assms gather_advances [OF assms False] advances_refl [of st]
      by (auto simp: tier2_body_def Let_def split: option.splits)
  next
    assume g: "gate ?ct ?ft full_name c st
                 = Inr (True, st\<lparr>reject_dict := (reject_dict st)(cand_id c \<mapsto> True)\<rparr>)"
    show ?thesis
      using False g assms advances_memo [of st "cand_id c"]
      by (simp add: tier2_body_def Let_def)
  qed
qed

lemma topic_inner_cases:
  "topic_inner fs_id c t ts st = Inr (st, False)
   \<or> topic_inner fs_id c t ts st
       = (case gather fs_id c st of Inl e \<Rightarrow> Inl e | Inr st' \<Rightarrow> Inr (st', True))"
  by (induction ts) auto

lemma topic_outer_cases:
  "topic_outer fs_id c ts st = Inr st \<or> topic_outer fs_id c ts st = gather fs_id c st"
proof (induction ts)
  case Nil
  then show ?case by simp
next
  case (Cons t ts)
  from topic_inner_cases [of fs_id c t "take 2 (topics c)" st]
  show ?case
  proof
    assume "topic_inner fs_id c t (take 2 (topics c)) st = Inr (st, False)"
    then show ?thesis using Cons by auto
  next
    assume "topic_inner fs_id c t (take 2 (topics c)) st
              = (case gather fs_id c st of Inl e \<Rightarrow> Inl e | Inr st' \<Rightarrow> Inr (st', True))"
    then show ?thesis by (cases "gather fs_id c st") auto
  qed
qed

lemma tier3_body_advances:
  assumes "fs_id \<in> dom (candidate_dict st)"
  shows "\<exists>st'. tier3_body T fs_id full_name c st = Inr st' \<and> advances st st'
           \<and> fs_id \<in> dom (candidate_dict st')"
proof (cases "already_accepted (candidate_dict st) fs_id (cand_id c)")
  case True
  then show ?thesis using assms by (simp add: tier3_body_def advances_refl)
next
  case False
  let ?ft = "sort (split T (normalize_name T full_name))"
  let ?ct = "sort (split T (normalize_name T (display_name c)))"
  have "[] \<notin> set ?ft" using split_nonempty by simp
  from gate_cases [of ?ft ?ct full_name c st, OF this]
  show ?thesis
  proof
    assume g: "gate ?ct ?ft full_name c st = Inr (False, st)"
    show ?thesis
    proof (cases "max_by (\<lambda>ct. case ct_relevance_score ct of None \<Rightarrow> 0 | Some r \<Rightarrow> r)
                    (accepted (candidate_dict st) fs_id)")
      case None
      then show ?thesis using False g assms
        by (simp add: tier3_body_def Let_def advances_refl)
    next
      case (Some best_existing)
      then have "tier3_body T fs_id full_name c st
                   = topic_outer fs_id c (take 2 (ct_topics best_existing)) st"
        using False g by (simp add: tier3_body_def Let_def)
      then show ?thesis
        using topic_outer_cases [of fs_id c "take 2 (ct_topics best_existing)" st]
          gather_advances [OF assms False] assms advances_refl [of st]
        by auto
    qed
  next
    assume g: "gate ?ct ?ft full_name c st
                 = Inr (True, st\<lparr>reject_dict := (reject_dict st)(cand_id c \<mapsto> True)\<rparr>)"
    show ?thesis
      using False g assms advances_memo [of st "cand_id c"]
      by (simp add: tier3_body_def Let_def)
  qed
qed

lemma search_openalex_advances:
  "\<exists>st'. search_openalex T inst_net authors_net fs_id q_name full_name pais ins st = Inr st'
         \<and> advances st st'"
proof -
  obtain ins_id cache' reqs where
    r: "resolve_institution_id T inst_net ins (ins_cache st) = (ins_id, cache', reqs)"
    by (cases "resolve_institution_id T inst_net ins (ins_cache st)") auto
  let ?s0 = "st\<lparr>ins_cache := cache'\<rparr>"
  have a0: "advances st ?s0" by (rule advances_cache)
  show ?thesis
  proof (cases "authors_net q_name")
    case Raises
    then show ?thesis using r a0 by (simp add: search_openalex_def)
  next
    case (Status code data)
    show ?thesis
    proof (cases "code \<noteq> 200")
      case True
      then show ?thesis using r a0 Status by (simp add: search_openalex_def)
    next
      case False
      let ?s1 = "if fs_id \<notin> dom (candidate_dict ?s0)
                 then ?s0\<lparr>candidate_dict := (candidate_dict ?s0)(fs_id \<mapsto> [])\<rparr> else ?s0"
      have a1: "advances st ?s1"
        using a0 advances_new_key [of fs_id ?s0] advances_trans [of st ?s0] by auto
      have d1: "fs_id \<in> dom (candidate_dict ?s1)" by auto
      show ?thesis
      proof (cases "meta_count data = 0")
        case True
        then show ?thesis using r Status False a1
          by (simp add: search_openalex_def Let_def del: fun_upd_apply)
      next
        case nz: False
        from for_each_advances [of "\<lambda>s. fs_id \<in> dom (candidate_dict s)"
               "tier1_body T fs_id full_name" ?s1 "results data", OF tier1_body_advances d1]
        obtain t1 where t1: "for_each (tier1_body T fs_id full_name) (results data) ?s1 = Inr t1"
          "advances ?s1 t1" "fs_id \<in> dom (candidate_dict t1)" by blast
        from for_each_advances [of "\<lambda>s. fs_id \<in> dom (candidate_dict s)"
               "tier2_body T ins_id fs_id full_name" t1 "results data",
               OF tier2_body_advances t1(3)]
        obtain t2 where t2: "for_each (tier2_body T ins_id fs_id full_name) (results data) t1 = Inr t2"
          "advances t1 t2" "fs_id \<in> dom (candidate_dict t2)" by blast
        from for_each_advances [of "\<lambda>s. fs_id \<in> dom (candidate_dict s)"
               "tier3_body T fs_id full_name" t2 "results data", OF tier3_body_advances t2(3)]
        obtain t3 where t3: "for_each (tier3_body T fs_id full_name) (results data) t2 = Inr t3"
          "advances t2 t3" by blast
        have "search_openalex T inst_net authors_net fs_id q_name full_name pais ins st = Inr t3"
          using r Status False nz t1(1) t2(1) t3(1)
          by (simp add: search_openalex_def Let_def del: fun_upd_apply)
        moreover have "advances st t3"
          using a1 t1(2) t2(2) t3(2) advances_trans by blast
        ultimately show ?thesis by blast
      qed
    qed
  qed
qed

lemma pipeline_advances:
  "\<exists>st'. for_each (pipeline_body T inst_net authors_net) df st = Inr st' \<and> advances st st'"
  using for_each_advances [of "\<lambda>_. True" "pipeline_body T inst_net authors_net" st df]
    search_openalex_advances
  by (simp add: pipeline_body_def)

section \<open>A run of the tiered matcher on the sample records\<close>

lemma sample_normalized:
  "normalize_name latin1 name_ana_ruiz_gomez = ustr ''ana ruiz gomez''"
  "normalize_name latin1 (ustr ''A. Ruiz'') = ustr ''a ruiz''"
  "normalize_name latin1 (ustr ''Ana Smith'') = ustr ''ana smith''"
  "normalize_name latin1 name_ana_gomez = ustr ''ana gomez''"
  by (simp_all add: normalize_name_def name_ana_ruiz_gomez_def name_ana_gomez_def ev)

lemma sample_split:
  "split latin1 (ustr ''ana ruiz gomez'') = map ustr [''ana'', ''ruiz'', ''gomez'']"
  "split latin1 (ustr ''a ruiz'') = map ustr [''a'', ''ruiz'']"
  "split latin1 (ustr ''ana smith'') = map ustr [''ana'', ''smith'']"
  "split latin1 (ustr ''ana gomez'') = map ustr [''ana'', ''gomez'']"
  by (simp_all add: ev)

lemma sample_sorted:
  "sort ([ustr ''ana'', ustr ''ruiz'', ustr ''gomez'']) = [ustr ''ana'', ustr ''gomez'', ustr ''ruiz'']"
  "sort ([ustr ''ana'', ustr ''gomez'']) = [ustr ''ana'', ustr ''gomez'']"
  "sort ([ustr ''ana'', ustr ''smith'']) = [ustr ''ana'', ustr ''smith'']"
  by (simp_all add: ustr_def)
lemma sample_fields:
  "cand_id cand_exact = ustr ''A1''" "cand_id cand_initial = ustr ''A2''"
  "cand_id cand_smith = ustr ''A3''" "cand_id cand_topic = ustr ''A4''"
  "display_name cand_exact = name_ana_ruiz_gomez" "display_name cand_initial = ustr ''A. Ruiz''"
  "display_name cand_smith = ustr ''Ana Smith''" "display_name cand_topic = name_ana_gomez"
  "display_name_alternatives cand_exact = []" "display_name_alternatives cand_initial = []"
  "display_name_alternatives cand_smith = []" "display_name_alternatives cand_topic = []"
  "affiliation_ids cand_exact = [Some (ustr ''I1'')]"
  "affiliation_ids cand_initial = [Some (ustr ''I1'')]"
  "affiliation_ids cand_smith = [Some (ustr ''I1'')]"
  "affiliation_ids cand_topic = [Some (ustr ''I9'')]"
  "topics cand_exact = [\<lparr> field_display_name = ustr ''Chemistry'' \<rparr>]"
  "topics cand_topic = [\<lparr> field_display_name = ustr ''Medicine'' \<rparr>,
                        \<lparr> field_display_name = ustr ''Chemistry'' \<rparr>]"
  by (simp_all add: cand_exact_def cand_initial_def cand_smith_def cand_topic_def)

lemma stored_fields:
  "ct_alex_id (stored c) = cand_id c"
  "ct_relevance_score (stored c) = None"
  "ct_topics (stored c) = topics c"
  by (simp_all add: stored_def make_tuple_def)

lemma gather_stored:
  "candidate_dict st (ustr ''P1'') = Some l \<Longrightarrow>
     gather (ustr ''P1'') c st
       = Inr (st\<lparr>candidate_dict := (candidate_dict st)(ustr ''P1'' \<mapsto> l @ [stored c])\<rparr>)"
  by (simp add: gather_def gather_candidate_data_def stored_def)

lemma sample_token_checks:
  "token_checks 0 ([ustr ''a'', ustr ''ruiz'']) ([ustr ''ana'', ustr ''ruiz'', ustr ''gomez'']) = Inr False"
  "token_checks 0 ([ustr ''ana'', ustr ''smith'']) ([ustr ''ana'', ustr ''ruiz'', ustr ''gomez'']) = Inr True"
  "token_checks 0 ([ustr ''ana'', ustr ''gomez'']) ([ustr ''ana'', ustr ''ruiz'', ustr ''gomez'']) = Inr False"
  "token_checks 0 ([ustr ''ana'', ustr ''gomez'']) ([ustr ''ana'', ustr ''gomez'', ustr ''ruiz'']) = Inr False"
  by (simp_all add: ustr_def)

lemma sample_case1:
  "for_each (tier1_body latin1 (ustr ''P1'') name_ana_ruiz_gomez)
     [cand_exact, cand_initial, cand_smith, cand_topic] sample_keyed = Inr sample_tier1"
  by (simp add: tier1_body_def Let_def sample_fields sample_normalized already_accepted_def
        accepted_def gather_stored ustr_eq_iff sample_keyed_def sample_tier1_def)

lemma sample_case2:
  "for_each (tier2_body latin1 (Some (ustr ''I1'')) (ustr ''P1'') name_ana_ruiz_gomez)
     [cand_exact, cand_initial, cand_smith, cand_topic] sample_tier1 = Inr sample_tier2"
  by (simp add: tier2_body_def Let_def sample_fields sample_normalized sample_split
        already_accepted_def accepted_def stored_fields gate_def bag_of_words_reject_def
        sample_token_checks gather_stored ustr_eq_iff ustr_nonempty sample_tier1_def
        sample_tier2_def del: token_checks.simps)

lemma sample_case3:
  "for_each (tier3_body latin1 (ustr ''P1'') name_ana_ruiz_gomez)
     [cand_exact, cand_initial, cand_smith, cand_topic] sample_tier2 = Inr sample_end"
  by (simp add: tier3_body_def Let_def sample_fields sample_normalized sample_split sample_sorted
        already_accepted_def accepted_def stored_fields gate_def bag_of_words_reject_def
        sample_token_checks gather_stored ustr_eq_iff sample_tier2_def sample_end_def
        del: token_checks.simps sort_key_simps)

lemma clean_zaragoza:
  "ins_clean latin1 (Some (ustr ''Universidad de Zaragoza (Spain)'')) = ustr ''Universidad de Zaragoza''"
  by (simp add: ins_clean_def strip_qualifiers_def ev)

lemma sample_resolve:
  "resolve_institution_id latin1 sample_inst_net (Some (ustr ''Universidad de Zaragoza (Spain)''))
     Map.empty
   = (Some (ustr ''I1''), [ustr ''Universidad de Zaragoza'' \<mapsto> ustr ''I1''],
      [ustr ''Universidad de Zaragoza''])"
  by (simp add: resolve_institution_id_def clean_zaragoza sample_inst_net_def Let_def)

lemma sample_resolve_again:
  "resolve_institution_id latin1 sample_inst_net (Some (ustr ''Universidad de Zaragoza (Spain)''))
     [ustr ''Universidad de Zaragoza'' \<mapsto> ustr ''I1'']
   = (Some (ustr ''I1''), [ustr ''Universidad de Zaragoza'' \<mapsto> ustr ''I1''], [])"
  by (simp add: resolve_institution_id_def clean_zaragoza MANUAL_REQUIRED_def ustr_eq_iff Let_def)

lemma sample_run:
  "search_openalex latin1 sample_inst_net sample_authors_net (ustr ''P1'') (ustr ''Ana Ruiz'')
     name_ana_ruiz_gomez (ustr ''ES'') (Some (ustr ''Universidad de Zaragoza (Spain)'')) sample_start
   = Inr sample_end"
proof -
  have k1: "ustr ''P1'' \<notin> dom (candidate_dict sample_start)"
    by (simp add: sample_start_def)
  have k: "sample_start\<lparr>ins_cache := [ustr ''Universidad de Zaragoza'' \<mapsto> ustr ''I1''],
             candidate_dict := (candidate_dict sample_start)(ustr ''P1'' \<mapsto> [])\<rparr>
           = sample_keyed"
    by (simp add: sample_start_def sample_keyed_def)
  have c: "ins_cache sample_start = Map.empty" by (simp add: sample_start_def)
  show ?thesis
    unfolding search_openalex_def c sample_resolve
    by (simp add: sample_authors_net_def Let_def k1 k sample_case1 sample_case2 sample_case3
          del: for_each.simps)
qed

text \<open>A second call for the same researcher leaves the state as it is.\<close>

lemma sample_case1_again:
  "for_each (tier1_body latin1 (ustr ''P1'') name_ana_ruiz_gomez)
     [cand_exact, cand_initial, cand_smith, cand_topic] sample_end = Inr sample_end"
  by (simp add: tier1_body_def Let_def sample_fields sample_normalized already_accepted_def
        accepted_def stored_fields ustr_eq_iff sample_end_def)

lemma sample_case2_again:
  "for_each (tier2_body latin1 (Some (ustr ''I1'')) (ustr ''P1'') name_ana_ruiz_gomez)
     [cand_exact, cand_initial, cand_smith, cand_topic] sample_end = Inr sample_end"
  by (simp add: tier2_body_def Let_def sample_fields sample_normalized sample_split
        already_accepted_def accepted_def stored_fields gate_def bag_of_words_reject_def
        sample_token_checks ustr_eq_iff ustr_nonempty sample_end_def
        del: token_checks.simps)

lemma sample_case3_again:
  "for_each (tier3_body latin1 (ustr ''P1'') name_ana_ruiz_gomez)
     [cand_exact, cand_initial, cand_smith, cand_topic] sample_end = Inr sample_end"
  by (simp add: tier3_body_def Let_def sample_fields sample_normalized sample_split sample_sorted
        already_accepted_def accepted_def stored_fields gate_def bag_of_words_reject_def
        sample_token_checks ustr_eq_iff sample_end_def
        del: token_checks.simps sort_key_simps)

lemma sample_run_again:
  "search_openalex latin1 sample_inst_net sample_authors_net (ustr ''P1'') (ustr ''Ana Ruiz'')
     name_ana_ruiz_gomez (ustr ''ES'') (Some (ustr ''Universidad de Zaragoza (Spain)'')) sample_end
   = Inr sample_end"
proof -
  have c: "ins_cache sample_end = [ustr ''Universidad de Zaragoza'' \<mapsto> ustr ''I1'']"
    by (simp add: sample_end_def)
  have s: "sample_end\<lparr>ins_cache := [ustr ''Universidad de Zaragoza'' \<mapsto> ustr ''I1'']\<rparr> = sample_end"
    by (simp add: sample_end_def)
  have d: "ustr ''P1'' \<in> dom (candidate_dict sample_end)" by (simp add: sample_end_def)
  show ?thesis
    unfolding search_openalex_def c sample_resolve_again
    by (simp add: sample_authors_net_def Let_def s d sample_case1_again sample_case2_again
          sample_case3_again del: for_each.simps)
qed

lemma sample_ids:
  "accepted_ids sample_start k = []"
  "accepted_ids sample_end (ustr ''P1'') = [ustr ''A1'', ustr ''A2'', ustr ''A4'']"
  "dom (reject_dict sample_end) = {ustr ''A3''}"
  by (simp_all add: accepted_ids_def accepted_def sample_start_def sample_end_def stored_fields
        sample_fields)

text \<open>
  C5. If no source id is stored twice for any researcher before a call of
  \<open>search_openalex\<close>, the call returns without raising, the lists of accepted
  candidates have only grown at their end, and still no source id is stored twice for
  any researcher: a candidate accepted in an earlier tier or an earlier call is never
  appended again. A whole run, which starts from empty lists, ends in such a state.
\<close>

theorem accepted_source_ids_distinct:
  "((\<forall>k. distinct (accepted_ids st k)) \<longrightarrow>
      (\<exists>st'. search_openalex T inst_net authors_net fs_id q_name full_name pais ins st = Inr st'
             \<and> (\<forall>k. distinct (accepted_ids st' k))
             \<and> (\<forall>k. \<exists>ext. accepted (candidate_dict st') k
                              = accepted (candidate_dict st) k @ ext)))
   \<and> (\<exists>st'. run_openalex_pipeline T inst_net authors_net loaded_cache df_main = Inr st'
             \<and> (\<forall>k. distinct (accepted_ids st' k)))"
proof -
  obtain st' where s: "search_openalex T inst_net authors_net fs_id q_name full_name pais ins st
                         = Inr st'" "advances st st'"
    using search_openalex_advances by blast
  let ?init = "\<lparr> candidate_dict = Map.empty, reject_dict = Map.empty, ins_cache = loaded_cache \<rparr>"
  obtain fin where f: "for_each (pipeline_body T inst_net authors_net) df_main ?init = Inr fin"
    "advances ?init fin"
    using pipeline_advances by blast
  have "\<forall>k. distinct (accepted_ids ?init k)" by (simp add: accepted_ids_def accepted_def)
  then have "\<forall>k. distinct (accepted_ids fin k)" using f(2) by (simp add: advances_def)
  then show ?thesis using s f(1) by (auto simp: advances_def run_openalex_pipeline_def)
qed

theorem accepted_source_ids_distinct_witness:
  "(\<forall>k. distinct (accepted_ids sample_start k))
   \<and> search_openalex latin1 sample_inst_net sample_authors_net (ustr ''P1'') (ustr ''Ana Ruiz'')
        name_ana_ruiz_gomez (ustr ''ES'') (Some (ustr ''Universidad de Zaragoza (Spain)''))
        sample_start = Inr sample_end
   \<and> accepted_ids sample_end (ustr ''P1'') = [ustr ''A1'', ustr ''A2'', ustr ''A4'']
   \<and> (\<forall>k. distinct (accepted_ids sample_end k))
   \<and> search_openalex latin1 sample_inst_net sample_authors_net (ustr ''P1'') (ustr ''Ana Ruiz'')
        name_ana_ruiz_gomez (ustr ''ES'') (Some (ustr ''Universidad de Zaragoza (Spain)''))
        sample_end = Inr sample_end"
  using accepted_source_ids_distinct [where st = sample_start and T = latin1
          and inst_net = sample_inst_net and authors_net = sample_authors_net
          and fs_id = "ustr ''P1''" and q_name = "ustr ''Ana Ruiz''"
          and full_name = name_ana_ruiz_gomez and pais = "ustr ''ES''"
          and ins = "Some (ustr ''Universidad de Zaragoza (Spain)'')"]
  by (simp add: sample_run sample_run_again sample_ids)

text \<open>
  C6. A call of \<open>search_openalex\<close>, and any sequence of later calls for any researchers,
  returns without raising and never removes an id from the rejection memo. For an id in
  the memo the gate answers ``rejected'' whatever the token lists are, also for token
  lists that pass every check or on which the checks would raise; so an id that is in
  the memo is rejected by every gate evaluation of every later call.
\<close>

theorem rejection_memo_monotonic:
  "(\<exists>st'. search_openalex T inst_net authors_net fs_id q_name full_name pais ins st = Inr st'
          \<and> dom (reject_dict st) \<subseteq> dom (reject_dict st'))
   \<and> (\<exists>st'. for_each (pipeline_body T inst_net authors_net) later_rows st = Inr st'
          \<and> dom (reject_dict st) \<subseteq> dom (reject_dict st')
          \<and> (source_id \<in> dom (reject_dict st) \<longrightarrow>
               bag_of_words_reject candidate_tokens full_name_tokens candidate_name target_name
                 (reject_dict st') source_id = Inr True))
   \<and> (source_id \<in> dom memo \<longrightarrow>
         bag_of_words_reject candidate_tokens full_name_tokens candidate_name target_name
           memo source_id = Inr True)"
proof -
  obtain s1 where s1: "search_openalex T inst_net authors_net fs_id q_name full_name pais ins st
                         = Inr s1" "advances st s1"
    using search_openalex_advances by blast
  obtain s2 where s2: "for_each (pipeline_body T inst_net authors_net) later_rows st = Inr s2"
    "advances st s2"
    using pipeline_advances by blast
  have hit: "bag_of_words_reject candidate_tokens full_name_tokens candidate_name target_name
               m source_id = Inr True" if "source_id \<in> dom m" for m
    using that by (simp add: bag_of_words_reject_def)
  have "dom (reject_dict st) \<subseteq> dom (reject_dict s1)" using s1(2) by (simp add: advances_def)
  moreover have sub: "dom (reject_dict st) \<subseteq> dom (reject_dict s2)"
    using s2(2) by (simp add: advances_def)
  moreover have "source_id \<in> dom (reject_dict st) \<longrightarrow>
               bag_of_words_reject candidate_tokens full_name_tokens candidate_name target_name
                 (reject_dict s2) source_id = Inr True"
    using sub hit by blast
  ultimately show ?thesis using s1(1) s2(1) hit by blast
qed

theorem rejection_memo_monotonic_witness:
  "ustr ''A3'' \<in> dom (reject_dict sample_end)
   \<and> token_checks 0 [ustr ''ana'', ustr ''gomez''] [ustr ''ana'', ustr ''ruiz'', ustr ''gomez'']
       = Inr False
   \<and> bag_of_words_reject [ustr ''ana'', ustr ''gomez''] [ustr ''ana'', ustr ''ruiz'', ustr ''gomez'']
       (ustr ''Ana Gomez'') (ustr ''Ana Ruiz Gomez'') (reject_dict sample_end) (ustr ''A3'')
       = Inr True
   \<and> search_openalex latin1 sample_inst_net sample_authors_net (ustr ''P1'') (ustr ''Ana Ruiz'')
        name_ana_ruiz_gomez (ustr ''ES'') (Some (ustr ''Universidad de Zaragoza (Spain)''))
        sample_start = Inr sample_end
   \<and> dom (reject_dict sample_start) \<subseteq> dom (reject_dict sample_end)"
  using rejection_memo_monotonic [where st = sample_start and T = latin1
          and inst_net = sample_inst_net and authors_net = sample_authors_net
          and fs_id = "ustr ''P1''" and q_name = "ustr ''Ana Ruiz''"
          and full_name = name_ana_ruiz_gomez and pais = "ustr ''ES''"
          and ins = "Some (ustr ''Universidad de Zaragoza (Spain)'')"
          and later_rows = "[]" and source_id = "ustr ''A3''" and memo = "reject_dict sample_end"
          and candidate_tokens = "[ustr ''ana'', ustr ''gomez'']"
          and full_name_tokens = "[ustr ''ana'', ustr ''ruiz'', ustr ''gomez'']"
          and candidate_name = "ustr ''Ana Gomez''" and target_name = "ustr ''Ana Ruiz Gomez''"]
  by (simp add: sample_run sample_ids sample_token_checks del: token_checks.simps)

section \<open>Idempotence of the name normalizer\<close>












subsection \<open>On the table fragment\<close>












end
